theory Spec2Isabelle
  imports Complex_Main "HOL-Library.Log_Nat" "HOL-Library.Code_Target_Numeral"
begin

section \<open>JavaScript numbers\<close>

text \<open>
  Every \<^verbatim>\<open>number\<close> of the scripts is an IEEE-754 binary64 value. A finite one is
  represented by the rational it denotes (the sign of zero is not kept: no operation of
  the scripts distinguishes the two zeros).
\<close>

datatype jsnumber = Fin rat | PInf | NInf | NaN

text \<open>\<open>ilog2 x\<close> is the binary exponent of a positive rational: \<open>2^e \<le> x < 2^(e+1)\<close>.\<close>

definition ilog2 :: "rat \<Rightarrow> int" where
  "ilog2 x = (let p = fst (quotient_of x); q = snd (quotient_of x); d = bitlen p - bitlen q
              in if 2 powi d \<le> x then d else d - 1)"

definition round_half_even :: "rat \<Rightarrow> int" where
  "round_half_even x = (let f = \<lfloor>x\<rfloor>; r = x - of_int f
     in if r < 1 / 2 then f else if 1 / 2 < r then f + 1 else if even f then f else f + 1)"

text \<open>
  Rounding of an exact result to binary64, to nearest with ties to even: 53 significant
  bits, gradual underflow below \<open>2^-1022\<close>, overflow to an infinity from \<open>2^1024\<close>.
\<close>

definition fl :: "rat \<Rightarrow> jsnumber" where
  "fl x = (if x = 0 then Fin 0 else
     let q = max (ilog2 \<bar>x\<bar>) (- 1022) - 52;
         m = round_half_even (\<bar>x\<bar> / 2 powi q);
         y = of_int m * 2 powi q
     in if 2 powi 1024 \<le> y then (if 0 < x then PInf else NInf) else Fin (sgn x * y))"

fun js_mul :: "jsnumber \<Rightarrow> jsnumber \<Rightarrow> jsnumber" where
  "js_mul (Fin a) (Fin b) = fl (a * b)"
| "js_mul NaN _ = NaN"
| "js_mul _ NaN = NaN"
| "js_mul PInf (Fin b) = (if b = 0 then NaN else if 0 < b then PInf else NInf)"
| "js_mul NInf (Fin b) = (if b = 0 then NaN else if 0 < b then NInf else PInf)"
| "js_mul (Fin a) PInf = (if a = 0 then NaN else if 0 < a then PInf else NInf)"
| "js_mul (Fin a) NInf = (if a = 0 then NaN else if 0 < a then NInf else PInf)"
| "js_mul PInf PInf = PInf"
| "js_mul NInf NInf = PInf"
| "js_mul PInf NInf = NInf"
| "js_mul NInf PInf = NInf"

text \<open>Division; every divisor in the scripts is the positive constant \<open>100000000\<close>.\<close>

fun js_div :: "jsnumber \<Rightarrow> jsnumber \<Rightarrow> jsnumber" where
  "js_div (Fin a) (Fin b) =
     (if b = 0 then (if a = 0 then NaN else if 0 < a then PInf else NInf) else fl (a / b))"
| "js_div NaN _ = NaN"
| "js_div _ NaN = NaN"
| "js_div PInf (Fin b) = (if 0 \<le> b then PInf else NInf)"
| "js_div NInf (Fin b) = (if 0 \<le> b then NInf else PInf)"
| "js_div (Fin a) PInf = Fin 0"
| "js_div (Fin a) NInf = Fin 0"
| "js_div _ _ = NaN"

fun js_sub :: "jsnumber \<Rightarrow> jsnumber \<Rightarrow> jsnumber" where
  "js_sub (Fin a) (Fin b) = fl (a - b)"
| "js_sub NaN _ = NaN"
| "js_sub _ NaN = NaN"
| "js_sub PInf PInf = NaN"
| "js_sub NInf NInf = NaN"
| "js_sub PInf _ = PInf"
| "js_sub NInf _ = NInf"
| "js_sub (Fin a) PInf = NInf"
| "js_sub (Fin a) NInf = PInf"

fun js_abs :: "jsnumber \<Rightarrow> jsnumber" where
  "js_abs (Fin a) = Fin \<bar>a\<bar>"
| "js_abs PInf = PInf"
| "js_abs NInf = PInf"
| "js_abs NaN = NaN"

text \<open>The relational operators: any comparison with \<open>NaN\<close> is false.\<close>

fun js_ge :: "jsnumber \<Rightarrow> jsnumber \<Rightarrow> bool" where
  "js_ge NaN _ = False"
| "js_ge _ NaN = False"
| "js_ge (Fin a) (Fin b) = (b \<le> a)"
| "js_ge PInf _ = True"
| "js_ge _ NInf = True"
| "js_ge (Fin a) PInf = False"
| "js_ge NInf _ = False"

definition js_le :: "jsnumber \<Rightarrow> jsnumber \<Rightarrow> bool" where
  "js_le a b = js_ge b a"

fun js_gt :: "jsnumber \<Rightarrow> jsnumber \<Rightarrow> bool" where
  "js_gt NaN _ = False"
| "js_gt _ NaN = False"
| "js_gt (Fin a) (Fin b) = (b < a)"
| "js_gt PInf PInf = False"
| "js_gt PInf _ = True"
| "js_gt NInf _ = False"
| "js_gt (Fin a) NInf = True"
| "js_gt (Fin a) PInf = False"

definition js_lt :: "jsnumber \<Rightarrow> jsnumber \<Rightarrow> bool" where
  "js_lt a b = js_gt b a"

text \<open>
  \<^verbatim>\<open>a % b\<close> on integer-valued numbers with a non-zero divisor: the remainder takes the
  sign of the dividend.
\<close>

definition js_rem :: "int \<Rightarrow> int \<Rightarrow> int" where
  "js_rem a b = sgn a * (\<bar>a\<bar> mod \<bar>b\<bar>)"

subsection \<open>\<^verbatim>\<open>parseFloat\<close> and \<^verbatim>\<open>Number\<close>\<close>

definition is_digit :: "char \<Rightarrow> bool" where
  "is_digit c = (c \<in> set ''0123456789'')"

definition is_space :: "char \<Rightarrow> bool" where
  "is_space c = (of_char c \<in> {9, 10, 11, 12, 13, 32 :: nat})"

definition digit_val :: "char \<Rightarrow> nat" where
  "digit_val c = of_char c - 48"

definition dec_val :: "string \<Rightarrow> nat" where
  "dec_val ds = foldl (\<lambda>a c. 10 * a + digit_val c) 0 ds"

text \<open>
  The exponent part of a decimal literal: \<^verbatim>\<open>e\<close> or \<^verbatim>\<open>E\<close>, an optional sign and at
  least one digit; anything else is not part of the number and counts as exponent 0.
\<close>

definition exponent_part :: "string \<Rightarrow> int" where
  "exponent_part r =
     (case r of
        [] \<Rightarrow> 0
      | c # r' \<Rightarrow>
          if c = CHR ''e'' \<or> c = CHR ''E'' then
            (case r' of
               [] \<Rightarrow> 0
             | s # r'' \<Rightarrow>
                 if s = CHR ''-'' then - int (dec_val (takeWhile is_digit r''))
                 else if s = CHR ''+'' then int (dec_val (takeWhile is_digit r''))
                 else int (dec_val (takeWhile is_digit r')))
          else 0)"

text \<open>
  \<^verbatim>\<open>parseFloat\<close>: leading white space is skipped, the longest prefix that is a decimal
  literal is read and rounded to the nearest binary64; no such prefix gives \<open>NaN\<close>.
\<close>

definition parseFloat :: "string \<Rightarrow> jsnumber" where
  "parseFloat s =
     (let t = dropWhile is_space s;
          neg = (case t of [] \<Rightarrow> False | c # _ \<Rightarrow> c = CHR ''-'');
          u = (case t of [] \<Rightarrow> [] | c # t' \<Rightarrow> if c = CHR ''-'' \<or> c = CHR ''+'' then t' else t)
      in if take 8 u = ''Infinity'' then (if neg then NInf else PInf)
         else
           let ip = takeWhile is_digit u;
               r1 = dropWhile is_digit u;
               dot = (case r1 of [] \<Rightarrow> False | c # _ \<Rightarrow> c = CHR ''.'');
               fp = (if dot then takeWhile is_digit (tl r1) else []);
               r2 = (if dot then dropWhile is_digit (tl r1) else r1)
           in if ip = [] \<and> fp = [] then NaN
              else
                let v = of_nat (dec_val (ip @ fp)) * 10 powi (exponent_part r2 - int (length fp))
                in fl (if neg then - v else v))"

text \<open>
  \<^verbatim>\<open>Number(result[0])\<close>: the view functions return a \<^verbatim>\<open>u64\<close>, which the client delivers
  as its decimal string; \<^verbatim>\<open>Number\<close> rounds it to the nearest binary64.
\<close>

definition Number_u64 :: "nat \<Rightarrow> jsnumber" where
  "Number_u64 n = fl (of_nat n)"

text \<open>\<^verbatim>\<open>!s\<close> for a value of type \<^verbatim>\<open>string | undefined\<close>.\<close>

definition falsy :: "string option \<Rightarrow> bool" where
  "falsy v = (case v of None \<Rightarrow> True | Some s \<Rightarrow> s = [])"

section \<open>What a run does to the outside world\<close>

text \<open>
  The scripts act through their collaborators only: view calls to the node, the
  transaction client, the error console, the timer and \<^verbatim>\<open>process.exit\<close>. A run is
  described by the list of these actions, in order. The informational \<^verbatim>\<open>console.log\<close>
  lines are kept for the monitor only, where they carry the streak counters.
\<close>

datatype event =
    View_rate_limit_capacity int
  | View_balance
  | Console_error string
  | Log_available jsnumber int
  | Log_blocked jsnumber int
  | Log_cut_available jsnumber int
  | Log_cut_blocked jsnumber int
  | Log_endpoint int bool jsnumber
  | Log_usage
  | Execute_transaction jsnumber
  | Tx_build string jsnumber
  | Tx_sign
  | Tx_submit
  | Tx_wait
  | Erc20_balanceOf
  | Get_fee_data
  | Estimate_gas string nat
  | Erc20_transfer string nat nat nat nat
  | Receipt_wait
  | Sleep int
  | Process_exit int

fun is_capacity_read :: "event \<Rightarrow> bool" where
  "is_capacity_read (View_rate_limit_capacity _) = True"
| "is_capacity_read _ = False"

fun is_execute :: "event \<Rightarrow> bool" where
  "is_execute (Execute_transaction _) = True"
| "is_execute _ = False"

fun is_transfer_step :: "event \<Rightarrow> bool" where
  "is_transfer_step Get_fee_data = True"
| "is_transfer_step (Estimate_gas _ _) = True"
| "is_transfer_step (Erc20_transfer _ _ _ _ _) = True"
| "is_transfer_step Receipt_wait = True"
| "is_transfer_step _ = False"

fun is_console_error :: "event \<Rightarrow> bool" where
  "is_console_error (Console_error _) = True"
| "is_console_error _ = False"

datatype error = Error string | Rejected

text \<open>A loop pass either hands the state to the next pass or ends the process.\<close>

datatype 'a step = Continue 'a | Exit int

text \<open>The answer of the node to a view call: the \<^verbatim>\<open>u64\<close> it returns, or a failure.\<close>

datatype view_result = View_ok nat | View_fails

section \<open>The auto-trigger script (\<^verbatim>\<open>auto-transaction-trigger.ts\<close>)\<close>

definition ENDPOINT_ID :: int where
  "ENDPOINT_ID = 30101"

fun checkRateLimit :: "int \<Rightarrow> view_result \<Rightarrow> event list \<times> jsnumber" where
  "checkRateLimit endpointId (View_ok n) = ([View_rate_limit_capacity endpointId], Number_u64 n)"
| "checkRateLimit endpointId View_fails =
     ([View_rate_limit_capacity endpointId, Console_error ''Error checking rate limit:'',
       Console_error ''Full error details:''], Fin 0)"

fun checkAccountBalance :: "view_result \<Rightarrow> event list \<times> jsnumber" where
  "checkAccountBalance (View_ok n) = ([View_balance], Number_u64 n)"
| "checkAccountBalance View_fails =
     ([View_balance, Console_error ''Error checking balance:'',
       Console_error ''Full error details:''], Fin 0)"

text \<open>How far the client gets with a transaction before it fails, if it does.\<close>

datatype tx_outcome = Build_fails | Sign_fails | Submit_fails | Wait_fails | Committed

definition executeTransaction ::
  "string option \<Rightarrow> jsnumber \<Rightarrow> tx_outcome \<Rightarrow> event list \<times> (error + unit)" where
  "executeTransaction RECIPIENT_ETH_ADDRESS threshold sdk =
     (if falsy RECIPIENT_ETH_ADDRESS
      then ([Execute_transaction threshold],
            Inl (Error ''RECIPIENT_ETH_ADDRESS not found in .env file''))
      else
        let r = the RECIPIENT_ETH_ADDRESS in
        (case sdk of
           Build_fails \<Rightarrow>
             ([Execute_transaction threshold, Tx_build r threshold,
               Console_error ''Transaction failed:''], Inl Rejected)
         | Sign_fails \<Rightarrow>
             ([Execute_transaction threshold, Tx_build r threshold, Tx_sign,
               Console_error ''Transaction failed:''], Inl Rejected)
         | Submit_fails \<Rightarrow>
             ([Execute_transaction threshold, Tx_build r threshold, Tx_sign, Tx_submit,
               Console_error ''Transaction failed:''], Inl Rejected)
         | Wait_fails \<Rightarrow>
             ([Execute_transaction threshold, Tx_build r threshold, Tx_sign, Tx_submit, Tx_wait,
               Console_error ''Transaction failed:''], Inl Rejected)
         | Committed \<Rightarrow>
             ([Execute_transaction threshold, Tx_build r threshold, Tx_sign, Tx_submit, Tx_wait],
              Inr ())))"

text \<open>
  The two counters of the loop. They are integers here: binary64 counts by one exactly up
  to \<open>2^53\<close>, which a loop that waits seconds between passes does not reach.
\<close>

record trigger_state =
  transactionCount :: int
  cycleCount :: int

text \<open>What the outside world answers during one pass of the loop.\<close>

record cycle_input =
  balance_check :: view_result
  capacity_view :: view_result
  balance_display :: view_result
  tx :: tx_outcome

text \<open>
  The call of \<^verbatim>\<open>executeTransaction\<close> inside its own \<^verbatim>\<open>try\<close>: a failure is logged
  with the transaction number and goes no further.
\<close>

definition trigger :: "string option \<Rightarrow> jsnumber \<Rightarrow> tx_outcome \<Rightarrow> event list" where
  "trigger recipient THRESHOLD sdk =
     (case executeTransaction recipient THRESHOLD sdk of
        (ev, Inl e) \<Rightarrow> ev @ [Console_error ''Transaction #n failed:'']
      | (ev, Inr u) \<Rightarrow> ev)"

text \<open>
  One pass of the \<^verbatim>\<open>while (true)\<close> body. Nothing in the body throws
  (\<^verbatim>\<open>checkRateLimit\<close> and \<^verbatim>\<open>checkAccountBalance\<close> catch their own failures, the
  transaction has its own \<^verbatim>\<open>try\<close>), so the outer \<^verbatim>\<open>catch\<close> has no branch here.
\<close>

definition cycle ::
  "string option \<Rightarrow> jsnumber \<Rightarrow> trigger_state \<Rightarrow> cycle_input
     \<Rightarrow> event list \<times> trigger_state step" where
  "cycle recipient THRESHOLD st inp =
     (let st1 = st\<lparr>cycleCount := cycleCount st + 1\<rparr>;
          tenth = (js_rem (cycleCount st1) 10 = 0);
          chk = (if tenth then checkAccountBalance (balance_check inp) else ([], Fin 0))
      in if tenth \<and> js_le (js_div (snd chk) (Fin 100000000)) (Fin 1000)
         then (fst chk @ [Process_exit 0], Exit 0)
         else
           let rd = checkRateLimit ENDPOINT_ID (capacity_view inp);
               capacity = snd rd;
               shown = (if tenth then fst (checkAccountBalance (balance_display inp)) else []);
               ev = fst chk @ fst rd @ shown
           in if js_ge capacity THRESHOLD
              then (ev @ trigger recipient THRESHOLD (tx inp) @ [Sleep 3000],
                    Continue (st1\<lparr>transactionCount := transactionCount st1 + 1\<rparr>))
              else (ev @ [Sleep 3000], Continue st1))"

text \<open>
  The loop never ends by itself; it is run against the answers of the outside world for
  finitely many passes. \<open>Continue st\<close> says that it is still running, in state \<open>st\<close>,
  when these are used up.
\<close>

fun monitor_loop ::
  "string option \<Rightarrow> jsnumber \<Rightarrow> trigger_state \<Rightarrow> cycle_input list
     \<Rightarrow> event list \<times> trigger_state step" where
  "monitor_loop recipient THRESHOLD st [] = ([], Continue st)"
| "monitor_loop recipient THRESHOLD st (inp # inps) =
     (case cycle recipient THRESHOLD st inp of
        (ev, Exit c) \<Rightarrow> (ev, Exit c)
      | (ev, Continue st') \<Rightarrow>
          (ev @ fst (monitor_loop recipient THRESHOLD st' inps),
           snd (monitor_loop recipient THRESHOLD st' inps)))"

text \<open>
  The environment: the three variables of \<^verbatim>\<open>.env\<close>, and whether the client's
  \<^verbatim>\<open>Ed25519PrivateKey\<close> constructor accepts the key.
\<close>

record environment =
  PVK :: "string option"
  THRESHOLD_TOKENS :: "string option"
  RECIPIENT_ETH_ADDRESS :: "string option"
  key_accepted :: bool

definition THRESHOLD_of :: "string \<Rightarrow> jsnumber" where
  "THRESHOLD_of thresholdTokens = js_mul (parseFloat thresholdTokens) (Fin 100000000)"

definition monitorAndTrigger ::
  "environment \<Rightarrow> cycle_input list \<Rightarrow> event list \<times> (error + trigger_state step)" where
  "monitorAndTrigger env inps =
     (if falsy (PVK env) then ([], Inl (Error ''PVK not found in .env file''))
      else if falsy (THRESHOLD_TOKENS env)
      then ([], Inl (Error ''THRESHOLD_TOKENS not found in .env file''))
      else if \<not> key_accepted env then ([], Inl Rejected)
      else
        (case monitor_loop (RECIPIENT_ETH_ADDRESS env)
                (THRESHOLD_of (the (THRESHOLD_TOKENS env)))
                \<lparr>transactionCount = 0, cycleCount = 0\<rparr> inps of
           (ev, r) \<Rightarrow> (ev, Inr r)))"

definition main_trigger ::
  "environment \<Rightarrow> cycle_input list \<Rightarrow> event list \<times> trigger_state step" where
  "main_trigger env inps =
     (case monitorAndTrigger env inps of
        (ev, Inl e) \<Rightarrow> (ev @ [Console_error ''Fatal error:'', Process_exit 1], Exit 1)
      | (ev, Inr r) \<Rightarrow> (ev, r))"

subsection \<open>The earlier variant of the script (no balance check, two-second delay)\<close>

fun checkRateLimit_v0 :: "int \<Rightarrow> view_result \<Rightarrow> event list \<times> jsnumber" where
  "checkRateLimit_v0 endpointId (View_ok n) =
     ([View_rate_limit_capacity endpointId], Number_u64 n)"
| "checkRateLimit_v0 endpointId View_fails =
     ([View_rate_limit_capacity endpointId, Console_error ''Error checking rate limit:''],
      Fin 0)"

text \<open>
  Its state is \<^verbatim>\<open>transactionCount\<close> alone (\<open>count\<close> below); a pass has one view
  answer and one transaction outcome.
\<close>

definition cycle_v0 ::
  "string option \<Rightarrow> jsnumber \<Rightarrow> int \<Rightarrow> view_result \<times> tx_outcome \<Rightarrow> event list \<times> int" where
  "cycle_v0 recipient THRESHOLD count inp =
     (let rd = checkRateLimit_v0 ENDPOINT_ID (fst inp);
          capacity = snd rd
      in if js_ge capacity THRESHOLD
         then (fst rd @ trigger recipient THRESHOLD (snd inp) @ [Sleep 2000], count + 1)
         else (fst rd @ [Sleep 2000], count))"

fun monitor_loop_v0 ::
  "string option \<Rightarrow> jsnumber \<Rightarrow> int \<Rightarrow> (view_result \<times> tx_outcome) list
     \<Rightarrow> event list \<times> int" where
  "monitor_loop_v0 recipient THRESHOLD n [] = ([], n)"
| "monitor_loop_v0 recipient THRESHOLD n (inp # inps) =
     (fst (cycle_v0 recipient THRESHOLD n inp)
        @ fst (monitor_loop_v0 recipient THRESHOLD (snd (cycle_v0 recipient THRESHOLD n inp)) inps),
      snd (monitor_loop_v0 recipient THRESHOLD (snd (cycle_v0 recipient THRESHOLD n inp)) inps))"

definition monitorAndTrigger_v0 ::
  "environment \<Rightarrow> (view_result \<times> tx_outcome) list \<Rightarrow> event list \<times> (error + int)" where
  "monitorAndTrigger_v0 env inps =
     (if falsy (PVK env) then ([], Inl (Error ''PVK not found in .env file''))
      else if falsy (THRESHOLD_TOKENS env)
      then ([], Inl (Error ''THRESHOLD_TOKENS not found in .env file''))
      else if \<not> key_accepted env then ([], Inl Rejected)
      else
        (case monitor_loop_v0 (RECIPIENT_ETH_ADDRESS env)
                (THRESHOLD_of (the (THRESHOLD_TOKENS env))) 0 inps of
           (ev, n) \<Rightarrow> (ev, Inr n)))"

definition main_trigger_v0 ::
  "environment \<Rightarrow> (view_result \<times> tx_outcome) list \<Rightarrow> event list \<times> int step" where
  "main_trigger_v0 env inps =
     (case monitorAndTrigger_v0 env inps of
        (ev, Inl e) \<Rightarrow> (ev @ [Console_error ''Fatal error:'', Process_exit 1], Exit 1)
      | (ev, Inr n) \<Rightarrow> (ev, Continue n))"

section \<open>The rate-limit monitor script\<close>

record reading =
  capacity :: jsnumber
  hasCapacity :: bool

text \<open>This script's \<^verbatim>\<open>checkRateLimit\<close> also says whether the capacity is positive.\<close>

fun checkRateLimit_monitor :: "int \<Rightarrow> view_result \<Rightarrow> event list \<times> reading" where
  "checkRateLimit_monitor endpointId (View_ok n) =
     ([View_rate_limit_capacity endpointId],
      \<lparr>capacity = Number_u64 n, hasCapacity = js_gt (Number_u64 n) (Fin 0)\<rparr>)"
| "checkRateLimit_monitor endpointId View_fails =
     ([View_rate_limit_capacity endpointId, Console_error ''Error checking rate limit:''],
      \<lparr>capacity = Fin 0, hasCapacity = False\<rparr>)"

subsection \<open>\<^verbatim>\<open>monitorRateLimit\<close>\<close>

record monitor_state =
  consecutiveAvailable :: int
  consecutiveBlocked :: int

text \<open>
  One pass of the loop of \<^verbatim>\<open>monitorRateLimit\<close>. As in the trigger script nothing in
  the body throws, so the outer \<^verbatim>\<open>catch\<close> has no branch.
\<close>

definition monitor_pass ::
  "int \<Rightarrow> int \<Rightarrow> monitor_state \<Rightarrow> view_result \<Rightarrow> event list \<times> monitor_state" where
  "monitor_pass endpointId intervalSeconds st v =
     (let rd = checkRateLimit_monitor endpointId v;
          r = snd rd
      in if hasCapacity r
         then
           (let st' = st\<lparr>consecutiveAvailable := consecutiveAvailable st + 1,
                          consecutiveBlocked := 0\<rparr>
            in (fst rd @ [Log_available (capacity r) (consecutiveAvailable st'),
                         Sleep (intervalSeconds * 1000)], st'))
         else
           (let st' = st\<lparr>consecutiveBlocked := consecutiveBlocked st + 1,
                          consecutiveAvailable := 0\<rparr>
            in (fst rd @ [Log_blocked (capacity r) (consecutiveBlocked st'),
                         Sleep (intervalSeconds * 1000)], st')))"

fun monitor_passes ::
  "int \<Rightarrow> int \<Rightarrow> monitor_state \<Rightarrow> view_result list \<Rightarrow> event list \<times> monitor_state" where
  "monitor_passes endpointId intervalSeconds st [] = ([], st)"
| "monitor_passes endpointId intervalSeconds st (v # vs) =
     (fst (monitor_pass endpointId intervalSeconds st v)
        @ fst (monitor_passes endpointId intervalSeconds
                 (snd (monitor_pass endpointId intervalSeconds st v)) vs),
      snd (monitor_passes endpointId intervalSeconds
             (snd (monitor_pass endpointId intervalSeconds st v)) vs))"

text \<open>\<^verbatim>\<open>monitorRateLimit\<close>, watched for as many passes as there are answers.\<close>

definition monitorRateLimit ::
  "int \<Rightarrow> int \<Rightarrow> view_result list \<Rightarrow> event list \<times> monitor_state" where
  "monitorRateLimit endpointId intervalSeconds vs =
     monitor_passes endpointId intervalSeconds
       \<lparr>consecutiveAvailable = 0, consecutiveBlocked = 0\<rparr> vs"

subsection \<open>The variant that reports capacity cuts\<close>

text \<open>
  \<^verbatim>\<open>formatCapacity\<close> divides by \<open>10^8\<close>; the rendering with eight decimals is not
  modelled, the events carry the number.
\<close>

definition formatCapacity :: "jsnumber \<Rightarrow> jsnumber" where
  "formatCapacity c = js_div c (Fin 100000000)"

record monitor_state_cut = monitor_state +
  previousCapacity :: "jsnumber option"

definition monitor_pass_cut ::
  "int \<Rightarrow> int \<Rightarrow> monitor_state_cut \<Rightarrow> view_result \<Rightarrow> event list \<times> monitor_state_cut" where
  "monitor_pass_cut endpointId intervalSeconds st v =
     (let rd = checkRateLimit_monitor endpointId v;
          r = snd rd;
          parkingCut =
            (case previousCapacity st of
               None \<Rightarrow> None
             | Some p \<Rightarrow>
                 if js_lt (js_sub (capacity r) p) (Fin 0) then Some (js_sub (capacity r) p)
                 else None)
      in if hasCapacity r
         then
           (let st' = st\<lparr>consecutiveAvailable := consecutiveAvailable st + 1,
                          consecutiveBlocked := 0\<rparr>;
                out =
                  (if js_gt (capacity r) (Fin 1000000000000)
                   then [Log_available (formatCapacity (capacity r)) (consecutiveAvailable st')]
                   else
                     (case parkingCut of
                        Some d \<Rightarrow>
                          [Log_cut_available (formatCapacity (js_abs d)) (consecutiveAvailable st')]
                      | None \<Rightarrow> []))
            in (fst rd @ out @ [Sleep (intervalSeconds * 1000)],
                st'\<lparr>previousCapacity := Some (capacity r)\<rparr>))
         else
           (let st' = st\<lparr>consecutiveBlocked := consecutiveBlocked st + 1,
                          consecutiveAvailable := 0\<rparr>;
                out =
                  (if js_gt (capacity r) (Fin 1000000000000)
                   then [Log_blocked (formatCapacity (capacity r)) (consecutiveBlocked st')]
                   else
                     (case parkingCut of
                        Some d \<Rightarrow>
                          [Log_cut_blocked (formatCapacity (js_abs d)) (consecutiveBlocked st')]
                      | None \<Rightarrow> []))
            in (fst rd @ out @ [Sleep (intervalSeconds * 1000)],
                st'\<lparr>previousCapacity := Some (capacity r)\<rparr>)))"

fun monitor_passes_cut ::
  "int \<Rightarrow> int \<Rightarrow> monitor_state_cut \<Rightarrow> view_result list
     \<Rightarrow> event list \<times> monitor_state_cut" where
  "monitor_passes_cut endpointId intervalSeconds st [] = ([], st)"
| "monitor_passes_cut endpointId intervalSeconds st (v # vs) =
     (fst (monitor_pass_cut endpointId intervalSeconds st v)
        @ fst (monitor_passes_cut endpointId intervalSeconds
                 (snd (monitor_pass_cut endpointId intervalSeconds st v)) vs),
      snd (monitor_passes_cut endpointId intervalSeconds
             (snd (monitor_pass_cut endpointId intervalSeconds st v)) vs))"

definition monitorRateLimit_cut ::
  "int \<Rightarrow> int \<Rightarrow> view_result list \<Rightarrow> event list \<times> monitor_state_cut" where
  "monitorRateLimit_cut endpointId intervalSeconds vs =
     monitor_passes_cut endpointId intervalSeconds
       \<lparr>consecutiveAvailable = 0, consecutiveBlocked = 0, previousCapacity = None\<rparr> vs"

subsection \<open>\<^verbatim>\<open>waitForRateLimit\<close>\<close>

text \<open>
  The \<^verbatim>\<open>for\<close> loop from \<open>attempt\<close> on; \<open>answers i\<close> is what the node answers to the
  view call of attempt \<open>i\<close>. The result is the trace and the returned boolean.
\<close>

function wait_attempts ::
  "int \<Rightarrow> int \<Rightarrow> int \<Rightarrow> (int \<Rightarrow> view_result) \<Rightarrow> event list \<times> bool" where
  "wait_attempts endpointId maxAttempts attempt answers =
     (if attempt \<le> maxAttempts
      then
        (if hasCapacity (snd (checkRateLimit_monitor endpointId (answers attempt)))
         then (fst (checkRateLimit_monitor endpointId (answers attempt)), True)
         else
           (fst (checkRateLimit_monitor endpointId (answers attempt))
              @ (if attempt < maxAttempts then [Sleep 5000] else [])
              @ fst (wait_attempts endpointId maxAttempts (attempt + 1) answers),
            snd (wait_attempts endpointId maxAttempts (attempt + 1) answers)))
      else ([], False))"
  by pat_completeness auto
termination
  by (relation "measure (\<lambda>(e, m, a, f). nat (m + 1 - a))") auto

text \<open>
  \<^verbatim>\<open>maxWaitMinutes\<close> is the integer that \<^verbatim>\<open>main\<close> passes; \<open>(m * 60) / 5\<close> is then the
  integer \<open>12 * m\<close>, and the division below is exact.
\<close>

definition waitForRateLimit ::
  "int \<Rightarrow> int \<Rightarrow> (int \<Rightarrow> view_result) \<Rightarrow> event list \<times> bool" where
  "waitForRateLimit endpointId maxWaitMinutes answers =
     (let maxAttempts = (maxWaitMinutes * 60) div 5
      in wait_attempts endpointId maxAttempts 1 answers)"

subsection \<open>\<^verbatim>\<open>main\<close>\<close>

text \<open>
  The command line after \<^verbatim>\<open>process.argv.slice(2)\<close>: the command word, and what
  \<^verbatim>\<open>parseInt\<close> makes of the next two arguments (\<open>None\<close> for \<open>NaN\<close>).
\<close>

record cli =
  command :: "string option"
  arg1 :: "int option"
  arg2 :: "int option"

text \<open>\<^verbatim>\<open>parseInt(a) || d\<close>: \<open>NaN\<close> and \<open>0\<close> are falsy.\<close>

definition or_default :: "int option \<Rightarrow> int \<Rightarrow> int" where
  "or_default v d = (case v of None \<Rightarrow> d | Some n \<Rightarrow> if n = 0 then d else n)"

text \<open>
  \<open>answers i\<close> is the node's answer to the \<open>i\<close>-th view call (from 1); the endless
  monitor is watched for \<open>passes\<close> passes.
\<close>

definition main_rate_limit ::
  "cli \<Rightarrow> (int \<Rightarrow> view_result) \<Rightarrow> nat \<Rightarrow> event list \<times> unit step" where
  "main_rate_limit args answers passes =
     (let endpointId = or_default (arg1 args) 30101
      in if command args = Some ''monitor'' then
           (fst (monitorRateLimit endpointId (or_default (arg2 args) 5)
                   (map answers [1..int passes])), Continue ())
         else if command args = Some ''wait'' then
           (let w = waitForRateLimit endpointId (or_default (arg2 args) 10) answers
            in (fst w @ [Process_exit (if snd w then 0 else 1)],
                Exit (if snd w then 0 else 1)))
         else if command args = Some ''check'' then
           (let rd = checkRateLimit_monitor endpointId (answers 1);
                code = (if hasCapacity (snd rd) then 0 else 1)
            in (fst rd @ [Log_endpoint endpointId (hasCapacity (snd rd)) (capacity (snd rd)),
                         Process_exit code], Exit code))
         else ([Log_usage], Exit 0))"

text \<open>The variant's \<^verbatim>\<open>main\<close> monitors when no command is given.\<close>

definition main_rate_limit_cut ::
  "cli \<Rightarrow> (int \<Rightarrow> view_result) \<Rightarrow> nat \<Rightarrow> event list \<times> unit step" where
  "main_rate_limit_cut args answers passes =
     (if falsy (command args) then
        (fst (monitorRateLimit_cut 30101 5 (map answers [1..int passes])), Continue ())
      else
        let endpointId = or_default (arg1 args) 30101
        in if command args = Some ''monitor'' then
             (fst (monitorRateLimit_cut endpointId (or_default (arg2 args) 5)
                     (map answers [1..int passes])), Continue ())
           else if command args = Some ''wait'' then
             (let w = waitForRateLimit endpointId (or_default (arg2 args) 10) answers
              in (fst w @ [Process_exit (if snd w then 0 else 1)],
                  Exit (if snd w then 0 else 1)))
           else if command args = Some ''check'' then
             (let rd = checkRateLimit_monitor endpointId (answers 1);
                  code = (if hasCapacity (snd rd) then 0 else 1)
              in (fst rd @ [Log_endpoint endpointId (hasCapacity (snd rd))
                             (formatCapacity (capacity (snd rd))),
                           Process_exit code], Exit code))
           else ([Log_usage], Exit 0))"

section \<open>The token transfer script (\<^verbatim>\<open>token-auto-transfer.ts\<close>)\<close>

definition TOKEN_DECIMALS :: nat where
  "TOKEN_DECIMALS = 8"

text \<open>\<^verbatim>\<open>ethers.parseUnits('300', TOKEN_DECIMALS)\<close>, a \<^verbatim>\<open>bigint\<close>.\<close>

definition MIN_BALANCE :: nat where
  "MIN_BALANCE = 300 * 10 ^ TOKEN_DECIMALS"

definition CHECK_INTERVAL :: int where
  "CHECK_INTERVAL = 3000"

definition gwei :: "nat \<Rightarrow> nat" where
  "gwei n = n * 10 ^ 9"

text \<open>\<^verbatim>\<open>x || d\<close> for \<^verbatim>\<open>bigint | null\<close>: \<^verbatim>\<open>null\<close> and \<^verbatim>\<open>0n\<close> are falsy.\<close>

definition big_or :: "nat option \<Rightarrow> nat \<Rightarrow> nat" where
  "big_or v d = (case v of None \<Rightarrow> d | Some n \<Rightarrow> if n = 0 then d else n)"

record fee_data =
  maxPriorityFeePerGas :: "nat option"
  maxFeePerGas :: "nat option"

text \<open>
  What the provider answers during one pass: each call resolves with a value or rejects
  (\<open>None\<close>, \<open>False\<close>).
\<close>

record poll_input =
  balance_reply :: "nat option"
  fee_reply :: "fee_data option"
  gas_reply :: "nat option"
  send_accepted :: bool
  receipt_arrives :: bool

text \<open>
  One pass of the loop: the body of the \<^verbatim>\<open>try\<close>, whose failures all end in the one
  \<^verbatim>\<open>catch\<close>, then the delay.
\<close>

definition transfer_pass :: "string \<Rightarrow> poll_input \<Rightarrow> event list" where
  "transfer_pass UPBIT_ADDRESS inp =
     (case balance_reply inp of
        None \<Rightarrow> [Erc20_balanceOf, Console_error ''Error:'']
      | Some balance \<Rightarrow>
          if MIN_BALANCE \<le> balance then
            (case fee_reply inp of
               None \<Rightarrow> [Erc20_balanceOf, Get_fee_data, Console_error ''Error:'']
             | Some feeData \<Rightarrow>
                 let maxPriority = big_or (maxPriorityFeePerGas feeData) (gwei 2);
                     maxFee = big_or (maxFeePerGas feeData) (gwei 30) + maxPriority
                 in
                   (case gas_reply inp of
                      None \<Rightarrow>
                        [Erc20_balanceOf, Get_fee_data, Estimate_gas UPBIT_ADDRESS balance,
                         Console_error ''Error:'']
                    | Some gasEstimate \<Rightarrow>
                        let gasLimit = gasEstimate * 120 div 100;
                            sent = [Erc20_balanceOf, Get_fee_data,
                                    Estimate_gas UPBIT_ADDRESS balance,
                                    Erc20_transfer UPBIT_ADDRESS balance maxPriority maxFee gasLimit]
                        in if \<not> send_accepted inp then sent @ [Console_error ''Error:'']
                           else if \<not> receipt_arrives inp
                           then sent @ [Receipt_wait, Console_error ''Error:'']
                           else sent @ [Receipt_wait]))
          else [Erc20_balanceOf])
     @ [Sleep CHECK_INTERVAL]"

fun transfer_passes :: "string \<Rightarrow> poll_input list \<Rightarrow> event list" where
  "transfer_passes UPBIT_ADDRESS [] = []"
| "transfer_passes UPBIT_ADDRESS (inp # inps) =
     transfer_pass UPBIT_ADDRESS inp @ transfer_passes UPBIT_ADDRESS inps"

record transfer_environment =
  ETH_PVK :: "string option"
  ETH_RPC :: "string option"
  UPBIT_ADDRESS :: "string option"
  wallet_accepted :: bool

definition main_transfer ::
  "transfer_environment \<Rightarrow> poll_input list \<Rightarrow> event list \<times> unit step" where
  "main_transfer env inps =
     (if falsy (ETH_PVK env) \<or> falsy (ETH_RPC env) \<or> falsy (UPBIT_ADDRESS env)
      then ([Console_error ''Missing required environment variables'', Process_exit 1], Exit 1)
      else if \<not> wallet_accepted env then ([Console_error []], Exit 0)
      else (transfer_passes (the (UPBIT_ADDRESS env)) inps, Continue ()))"

section \<open>Rounding lemmas\<close>

lemma round_half_even_of_int: "round_half_even (of_int k) = k"
  by (simp add: round_half_even_def)

lemma round_half_even_le: "x \<le> of_int K \<Longrightarrow> round_half_even x \<le> K"
  unfolding round_half_even_def Let_def
  by (auto simp: floor_le_iff le_floor_iff)

lemma round_half_even_ge:
  assumes "of_int K \<le> x"
  shows "K \<le> round_half_even x"
proof -
  have "K \<le> \<lfloor>x\<rfloor>" using assms by (simp add: le_floor_iff)
  then show ?thesis unfolding round_half_even_def Let_def by auto
qed

lemma ilog2_lower:
  assumes "0 < x"
  shows "2 powi (ilog2 x) \<le> x"
proof -
  obtain p q where pq: "quotient_of x = (p, q)" by (cases "quotient_of x")
  have q: "0 < q" using pq by (rule quotient_of_denom_pos)
  have x: "x = of_int p / of_int q" using pq by (rule quotient_of_div)
  have p: "0 < p" using assms q unfolding x by (simp add: zero_less_divide_iff)
  let ?d = "bitlen p - bitlen q"
  show ?thesis
  proof (cases "2 powi ?d \<le> x")
    case True
    then show ?thesis by (simp add: ilog2_def pq)
  next
    case False
    have bp: "1 \<le> bitlen p" using p bitlen_eq_zero_iff[of p] bitlen_nonneg[of p] by linarith
    have bq: "0 \<le> bitlen q" by (rule bitlen_nonneg)
    have "(2::int) ^ nat (bitlen p - 1) \<le> p" using bitlen_bounds[OF p] by simp
    then have "(of_int ((2::int) ^ nat (bitlen p - 1)) :: rat) \<le> of_int p"
      by (simp only: of_int_le_iff)
    then have lo: "(2::rat) powi (bitlen p - 1) \<le> of_int p"
      using bp by (simp add: power_int_def)
    have "q < 2 ^ nat (bitlen q)" using bitlen_bounds[OF q] by simp
    then have "(of_int q :: rat) < of_int ((2::int) ^ nat (bitlen q))"
      by (simp only: of_int_less_iff)
    then have hi: "of_int q \<le> (2::rat) powi (bitlen q)"
      using bq by (simp add: power_int_def)
    have "(2::rat) powi (?d - 1) = 2 powi (bitlen p - 1) / 2 powi (bitlen q)"
      using power_int_diff[of "2::rat" "bitlen p - 1" "bitlen q"] by (simp add: algebra_simps)
    also have "\<dots> \<le> of_int p / of_int q"
      using lo hi q p by (intro frac_le) auto
    finally have "(2::rat) powi (?d - 1) \<le> x" by (simp add: x)
    then show ?thesis using False by (simp add: ilog2_def pq)
  qed
qed

lemma ilog2_upper:
  assumes "0 < x"
  shows "x < 2 powi (ilog2 x + 1)"
proof -
  obtain p q where pq: "quotient_of x = (p, q)" by (cases "quotient_of x")
  have q: "0 < q" using pq by (rule quotient_of_denom_pos)
  have x: "x = of_int p / of_int q" using pq by (rule quotient_of_div)
  have p: "0 < p" using assms q unfolding x by (simp add: zero_less_divide_iff)
  let ?d = "bitlen p - bitlen q"
  show ?thesis
  proof (cases "2 powi ?d \<le> x")
    case False
    then show ?thesis by (simp add: ilog2_def pq)
  next
    case True
    have bq: "1 \<le> bitlen q" using q bitlen_eq_zero_iff[of q] bitlen_nonneg[of q] by linarith
    have bp: "0 \<le> bitlen p" by (rule bitlen_nonneg)
    have "(2::int) ^ nat (bitlen q - 1) \<le> q" using bitlen_bounds[OF q] by simp
    then have "(of_int ((2::int) ^ nat (bitlen q - 1)) :: rat) \<le> of_int q"
      by (simp only: of_int_le_iff)
    then have lo: "(2::rat) powi (bitlen q - 1) \<le> of_int q"
      using bq by (simp add: power_int_def)
    have "p < 2 ^ nat (bitlen p)" using bitlen_bounds[OF p] by simp
    then have "(of_int p :: rat) < of_int ((2::int) ^ nat (bitlen p))"
      by (simp only: of_int_less_iff)
    then have hi: "of_int p < (2::rat) powi (bitlen p)"
      using bp by (simp add: power_int_def)
    have pos: "(0::rat) < 2 powi (bitlen q - 1)" by (simp add: zero_less_power_int)
    have "x = of_int p / of_int q" by (rule x)
    also have "\<dots> < 2 powi (bitlen p) / 2 powi (bitlen q - 1)"
      using lo hi q p pos by (intro frac_less) auto
    also have "\<dots> = (2::rat) powi (?d + 1)"
      using power_int_diff[of "2::rat" "bitlen p" "bitlen q - 1"] by (simp add: algebra_simps)
    finally show ?thesis using True by (simp add: ilog2_def pq)
  qed
qed

lemma ilog2_unique:
  assumes lo: "2 powi e \<le> x" and hi: "x < 2 powi (e + 1)"
  shows "ilog2 x = e"
proof -
  have x: "0 < x" using lo zero_less_power_int[of "2::rat" e] by linarith
  have "(2::rat) powi ilog2 x < 2 powi (e + 1)" using ilog2_lower[OF x] hi by linarith
  then have "ilog2 x < e + 1" by (metis linorder_not_le power_int_increasing one_le_numeral)
  moreover have "(2::rat) powi e < 2 powi (ilog2 x + 1)" using ilog2_upper[OF x] lo by linarith
  then have "e < ilog2 x + 1" by (metis linorder_not_le power_int_increasing one_le_numeral)
  ultimately show ?thesis by linarith
qed

lemma round_half_even_unique:
  assumes "of_int k - 1 / 2 < x" "x < of_int k + 1 / 2"
  shows "round_half_even x = k"
proof -
  have "\<lfloor>x\<rfloor> = k \<or> \<lfloor>x\<rfloor> = k - 1" using assms by linarith
  then show ?thesis using assms unfolding round_half_even_def Let_def
    by auto
qed

lemma fl_pos:
  assumes "0 < x"
  shows "fl x = (let q = max (ilog2 x) (- 1022) - 52;
                     y = of_int (round_half_even (x / 2 powi q)) * 2 powi q
                 in if 2 powi 1024 \<le> y then PInf else Fin y)"
  using assms by (simp add: fl_def Let_def)

lemma fl_eqI:
  assumes lo: "2 powi e \<le> x" and hi: "x < 2 powi (e + 1)"
    and e: "- 1022 \<le> e" "e \<le> 1022"
    and m1: "of_int m - 1 / 2 < x / 2 powi (e - 52)"
    and m2: "x / 2 powi (e - 52) < of_int m + 1 / 2"
  shows "fl x = Fin (of_int m * 2 powi (e - 52))"
proof -
  have x: "0 < x" using lo zero_less_power_int[of "2::rat" e] by linarith
  have il: "ilog2 x = e" using lo hi by (rule ilog2_unique)
  have q: "max (ilog2 x) (- 1022) - 52 = e - 52" using e il by simp
  have r: "round_half_even (x / 2 powi (e - 52)) = m" using m1 m2 by (rule round_half_even_unique)
  have pos: "(0::rat) < 2 powi (e - 52)" by (simp add: zero_less_power_int)
  have "x / 2 powi (e - 52) < 2 powi (e + 1) / 2 powi (e - 52)"
    using hi pos by (simp add: divide_strict_right_mono)
  also have "\<dots> = of_int (2 ^ 53)"
    using power_int_diff[of "2::rat" "e + 1" "e - 52"] by simp
  finally have "m \<le> 2 ^ 53" unfolding r[symmetric] by (intro round_half_even_le) simp
  then have "(of_int m :: rat) \<le> of_int (2 ^ 53)" by (simp only: of_int_le_iff)
  then have "of_int m * 2 powi (e - 52) \<le> of_int (2 ^ 53) * (2::rat) powi (e - 52)"
    using pos by (intro mult_right_mono) simp_all
  also have "\<dots> = 2 powi (e + 1)"
    using power_int_add[of "2::rat" 53 "e - 52"] by (simp add: add.commute)
  also have "\<dots> < 2 powi 1024" using e by (intro power_int_strict_increasing) simp_all
  finally have "\<not> 2 powi 1024 \<le> of_int m * (2::rat) powi (e - 52)" by simp
  then show ?thesis unfolding fl_pos[OF x] Let_def q r by (simp del: power_int_numeral)
qed

lemma powi_neg_int: "q \<le> 0 \<Longrightarrow> of_int K / (2::rat) powi q = of_int (K * 2 ^ nat (- q))"
  by (simp add: power_int_def field_simps)

lemma powi_cancel: "q \<le> 0 \<Longrightarrow> of_int (K * 2 ^ nat (- q)) * (2::rat) powi q = of_int K"
  by (simp add: power_int_def power_one_over)

lemma fl_le_int:
  assumes x: "0 < x" and xK: "x \<le> of_int K" and K: "K < 2 ^ 53"
  shows "\<exists>y. fl x = Fin y \<and> y \<le> of_int K \<and> 0 \<le> y"
proof -
  define q where "q = max (ilog2 x) (- 1022) - 52"
  define m where "m = round_half_even (x / 2 powi q)"
  have "(2::rat) powi ilog2 x \<le> x" by (rule ilog2_lower[OF x])
  also have "x \<le> of_int K" by (rule xK)
  also have "(of_int K :: rat) < of_int (2 ^ 53)" using K by (simp only: of_int_less_iff)
  also have "(of_int (2 ^ 53) :: rat) = 2 powi 53" by simp
  finally have "(2::rat) powi ilog2 x < 2 powi 53" .
  then have "ilog2 x < 53" by (rule power_int_le_imp_less_exp[rotated]) simp_all
  then have q0: "q \<le> 0" by (simp add: q_def)
  have pos: "(0::rat) < 2 powi q" by (simp add: zero_less_power_int)
  have "x / 2 powi q \<le> of_int K / 2 powi q"
    using xK pos by (simp add: divide_right_mono)
  then have "m \<le> K * 2 ^ nat (- q)"
    unfolding m_def powi_neg_int[OF q0] by (rule round_half_even_le)
  then have "(of_int m :: rat) \<le> of_int (K * 2 ^ nat (- q))" by (simp only: of_int_le_iff)
  then have "of_int m * (2::rat) powi q \<le> of_int (K * 2 ^ nat (- q)) * 2 powi q"
    using pos by (intro mult_right_mono) simp_all
  then have le: "of_int m * (2::rat) powi q \<le> of_int K" by (simp only: powi_cancel[OF q0])
  have "(0::rat) \<le> x / 2 powi q" using x pos by simp
  then have "0 \<le> m" unfolding m_def using round_half_even_ge[of 0] by simp
  then have nn: "0 \<le> of_int m * (2::rat) powi q" using pos by simp
  have "(of_int K :: rat) < of_int (2 ^ 53)" using K by (simp only: of_int_less_iff)
  also have "(of_int (2 ^ 53) :: rat) = 2 powi 53" by simp
  also have "(2::rat) powi 53 < 2 powi 1024" by (rule power_int_strict_increasing) simp_all
  finally have "(of_int K :: rat) < 2 powi 1024" .
  then have "\<not> 2 powi 1024 \<le> of_int m * (2::rat) powi q" using le by linarith
  then have "fl x = Fin (of_int m * 2 powi q)"
    unfolding fl_pos[OF x] Let_def q_def[symmetric] m_def[symmetric] by (simp del: power_int_numeral)
  then show ?thesis using le nn by blast
qed

lemma fl_ge_int:
  assumes x: "0 < x" and Kx: "of_int K \<le> x" and K: "K < 2 ^ 53"
  shows "js_ge (fl x) (Fin (of_int K))"
proof -
  define q where "q = max (ilog2 x) (- 1022) - 52"
  define m where "m = round_half_even (x / 2 powi q)"
  have pos: "(0::rat) < 2 powi q" by (simp add: zero_less_power_int)
  have "(of_int K :: rat) \<le> of_int m * 2 powi q"
  proof (cases "q \<le> 0")
    case True
    have "of_int K / 2 powi q \<le> x / 2 powi q"
      using Kx pos by (simp add: divide_right_mono)
    then have "K * 2 ^ nat (- q) \<le> m"
      unfolding m_def powi_neg_int[OF True] by (rule round_half_even_ge)
    then have "(of_int (K * 2 ^ nat (- q)) :: rat) \<le> of_int m" by (simp only: of_int_le_iff)
    then have "of_int (K * 2 ^ nat (- q)) * 2 powi q \<le> of_int m * (2::rat) powi q"
      using pos by (intro mult_right_mono) simp_all
    then show ?thesis by (simp only: powi_cancel[OF True])
  next
    case False
    then have e: "52 < ilog2 x" and qe: "q = ilog2 x - 52" by (simp_all add: q_def)
    have "(2::rat) powi 52 = 2 powi ilog2 x / 2 powi q"
      unfolding qe using power_int_diff[of "2::rat" "ilog2 x" "ilog2 x - 52"] by simp
    also have "\<dots> \<le> x / 2 powi q"
      using ilog2_lower[OF x] pos by (simp add: divide_right_mono)
    finally have "of_int (2 ^ 52) \<le> x / 2 powi q" by simp
    then have "2 ^ 52 \<le> m" unfolding m_def by (rule round_half_even_ge)
    then have "(of_int (2 ^ 52) :: rat) \<le> of_int m" by (simp only: of_int_le_iff)
    then have "of_int (2 ^ 52) * 2 powi q \<le> of_int m * (2::rat) powi q"
      using pos by (simp add: mult_right_mono)
    moreover have "of_int (2 ^ 52) * (2::rat) powi q = 2 powi ilog2 x"
      unfolding qe using power_int_add[of "2::rat" 52 "ilog2 x - 52"] by simp
    moreover have "(2::rat) powi 53 \<le> 2 powi ilog2 x"
      using e by (intro power_int_increasing) simp_all
    moreover have "(of_int K :: rat) < of_int (2 ^ 53)" using K by (simp only: of_int_less_iff)
    moreover have "(of_int (2 ^ 53) :: rat) = 2 powi 53" by simp
    ultimately show ?thesis by linarith
  qed
  moreover have "fl x = (if 2 powi 1024 \<le> of_int m * (2::rat) powi q then PInf
                         else Fin (of_int m * 2 powi q))"
    unfolding fl_pos[OF x] Let_def q_def[symmetric] m_def[symmetric] ..
  ultimately show ?thesis by simp
qed

lemma fl_of_nat_exact:
  assumes "n < 2 ^ 53"
  shows "fl (of_nat n) = Fin (of_nat n)"
proof (cases "n = 0")
  case True
  then show ?thesis by (simp add: fl_def)
next
  case False
  then have x: "(0::rat) < of_nat n" by simp
  have K: "int n < 2 ^ 53" using assms by (metis of_nat_less_iff of_nat_numeral of_nat_power)
  have eq: "(of_int (int n) :: rat) = of_nat n" by simp
  obtain y where y: "fl (of_nat n) = Fin y" "y \<le> of_int (int n)"
    using fl_le_int[OF x _ K] eq by auto
  have "js_ge (fl (of_nat n)) (Fin (of_int (int n)))"
    using fl_ge_int[OF x _ K] eq by auto
  then show ?thesis using y by simp
qed

lemma Number_u64_ge_iff:
  assumes "t < 2 ^ 53"
  shows "js_ge (Number_u64 n) (Fin (of_nat t)) \<longleftrightarrow> t \<le> n"
proof (cases "n < t")
  case True
  then have "n < 2 ^ 53" using assms by simp
  then show ?thesis using True by (simp add: Number_u64_def fl_of_nat_exact)
next
  case False
  show ?thesis
  proof (cases "n = 0")
    case True
    then show ?thesis using False by (simp add: Number_u64_def fl_def)
  next
    case n: False
    have K: "int t < 2 ^ 53" using assms by (metis of_nat_less_iff of_nat_numeral of_nat_power)
    have "js_ge (fl (of_nat n)) (Fin (of_int (int t)))"
      using False n by (intro fl_ge_int[OF _ _ K]) simp_all
    then show ?thesis using False by (simp add: Number_u64_def)
  qed
qed

lemma is_digit_not_special:
  assumes "is_digit c"
  shows "\<not> is_space c" "c \<noteq> CHR ''-''" "c \<noteq> CHR ''+''" "c \<noteq> CHR ''I''"
  using assms by (auto simp: is_digit_def is_space_def)

lemma parseFloat_digits:
  assumes ne: "ds \<noteq> []" and dig: "list_all is_digit ds"
  shows "parseFloat ds = fl (of_nat (dec_val ds))"
proof -
  obtain c cs where ds: "ds = c # cs" using ne by (cases ds) auto
  have c: "is_digit c" using dig ds by simp
  note sp = is_digit_not_special[OF c]
  have t: "dropWhile is_space ds = ds" using sp(1) ds by simp
  have tw: "takeWhile is_digit ds = ds" using dig by (simp add: takeWhile_eq_all_conv list_all_iff)
  have dw: "dropWhile is_digit ds = []" using dig by (simp add: list_all_iff)
  have inf: "take 8 ds \<noteq> ''Infinity''" using sp(4) ds by auto
  have neg: "(case ds of [] \<Rightarrow> False | c # x \<Rightarrow> c = CHR ''-'') = False"
    using sp ds by simp
  have u: "(case ds of [] \<Rightarrow> [] | c # t' \<Rightarrow> if c = CHR ''-'' \<or> c = CHR ''+'' then t' else ds) = ds"
    using sp ds by simp
  show ?thesis
    unfolding parseFloat_def Let_def t neg u
    by (simp add: inf tw dw ne exponent_part_def)
qed

lemma THRESHOLD_of_digits:
  assumes ne: "ds \<noteq> []" and dig: "list_all is_digit ds" and small: "dec_val ds * 10 ^ 8 < 2 ^ 53"
  shows "THRESHOLD_of ds = Fin (of_nat (dec_val ds * 10 ^ 8))"
proof -
  have "dec_val ds \<le> dec_val ds * 10 ^ 8" by simp
  then have T: "dec_val ds < 2 ^ 53" using small by linarith
  have "THRESHOLD_of ds = fl (of_nat (dec_val ds) * 100000000)"
    by (simp add: THRESHOLD_of_def parseFloat_digits[OF ne dig] fl_of_nat_exact[OF T])
  also have "of_nat (dec_val ds) * (100000000::rat) = of_nat (dec_val ds * 10 ^ 8)" by simp
  finally show ?thesis by (simp only: fl_of_nat_exact[OF small])
qed

lemma dec_val_2000: "dec_val ''2000'' = 2000"
  by (simp add: dec_val_def digit_val_def)

lemma Number_u64_exact: "n < 2 ^ 53 \<Longrightarrow> Number_u64 n = Fin (of_nat n)"
  by (simp add: Number_u64_def fl_of_nat_exact)

lemma js_rem_1: "js_rem 1 10 = 1"
  by (simp add: js_rem_def)

lemma parseFloat_0_07: "parseFloat ''0.07'' = fl (7 / 100)"
  by (simp add: parseFloat_def Let_def is_digit_def is_space_def dec_val_def digit_val_def
      exponent_part_def)

lemma fl_0_07: "fl (7 / 100) = Fin (1261007895663739 / 2 ^ 54)"
  using fl_eqI[where x = "7 / 100" and e = "- 4" and m = 5044031582654956]
  by (simp add: power_int_minus)

lemma fl_0_07_scaled: "fl (1261007895663739 / 2 ^ 54 * 100000000) = Fin (7000000 + 1 / 2 ^ 30)"
  using fl_eqI[where x = "1261007895663739 / 2 ^ 54 * 100000000" and e = 22
      and m = 7516192768000001]
  by (simp add: power_int_minus)

lemma THRESHOLD_of_0_07: "THRESHOLD_of ''0.07'' = Fin (7000000 + 1 / 2 ^ 30)"
  using fl_0_07_scaled by (simp add: THRESHOLD_of_def parseFloat_0_07 fl_0_07)

lemma THRESHOLD_of_2000: "THRESHOLD_of ''2000'' = Fin 200000000000"
  using THRESHOLD_of_digits[of "''2000''"] by (simp add: dec_val_2000 is_digit_def)

section \<open>Events of the collaborators\<close>

lemma trigger_filter:
  "filter is_execute (trigger r T sdk) = [Execute_transaction T]"
  "filter is_capacity_read (trigger r T sdk) = []"
  by (cases sdk; simp add: trigger_def executeTransaction_def Let_def)+

lemma checkRateLimit_filter:
  "filter is_capacity_read (fst (checkRateLimit e v)) = [View_rate_limit_capacity e]"
  "filter is_execute (fst (checkRateLimit e v)) = []"
  "takeWhile (\<lambda>e. \<not> is_capacity_read e) (fst (checkRateLimit e v) @ rest) = []"
  by (cases v; simp)+

lemma checkRateLimit_v0_filter:
  "filter is_capacity_read (fst (checkRateLimit_v0 e v)) = [View_rate_limit_capacity e]"
  "filter is_execute (fst (checkRateLimit_v0 e v)) = []"
  "takeWhile (\<lambda>e. \<not> is_capacity_read e) (fst (checkRateLimit_v0 e v) @ rest) = []"
  by (cases v; simp)+

lemma checkAccountBalance_filter:
  "filter is_capacity_read (fst (checkAccountBalance v)) = []"
  "filter is_execute (fst (checkAccountBalance v)) = []"
  "takeWhile (\<lambda>e. \<not> is_capacity_read e) (fst (checkAccountBalance v) @ rest)
     = fst (checkAccountBalance v) @ takeWhile (\<lambda>e. \<not> is_capacity_read e) rest"
  by (cases v; simp)+

lemma Number_u64_0: "Number_u64 0 = Fin 0"
  by (simp add: Number_u64_def fl_def)

lemma checkRateLimit_fails_zero:
  "snd (checkRateLimit e View_fails) = snd (checkRateLimit e (View_ok 0))"
  "filter (\<lambda>e. \<not> is_console_error e) (fst (checkRateLimit e View_fails))
     = fst (checkRateLimit e (View_ok 0))"
  by (simp_all add: Number_u64_0)

lemma monitor_loop_Exit:
  assumes "cycle r T st inp = (ev, Exit c)"
  shows "monitor_loop r T st (inp # inps) = (ev, Exit c)"
  using assms by simp

lemma trigger_failed_logged:
  "snd (executeTransaction r T sdk) = Inl err \<Longrightarrow> Console_error ''Transaction #n failed:'' \<in> set (trigger r T sdk)"
  by (cases sdk; simp add: trigger_def executeTransaction_def Let_def split: if_splits)


lemma balance_below_floor:
  assumes "b < 1000 * 10 ^ 8"
  shows "js_le (js_div (Number_u64 b) (Fin 100000000)) (Fin 1000)"
proof (cases "b = 0")
  case True
  then show ?thesis by (simp add: Number_u64_0 fl_def js_le_def)
next
  case False
  have b53: "b < 2 ^ 53" using assms by simp
  have x: "(0::rat) < of_nat b / 100000000" using False by simp
  have le: "of_nat b / 100000000 \<le> (of_int 1000 :: rat)" using assms by simp
  obtain y where "fl (of_nat b / 100000000) = Fin y" "y \<le> of_int 1000"
    using fl_le_int[OF x le] by auto
  then show ?thesis by (simp add: Number_u64_exact[OF b53] js_le_def)
qed

lemma trigger_no_balance: "View_balance \<notin> set (trigger r T sdk)"
  by (cases sdk; simp add: trigger_def executeTransaction_def Let_def)

lemma checkRateLimit_no_balance: "View_balance \<notin> set (fst (checkRateLimit e v))"
  by (cases v; simp)

lemma checkAccountBalance_hd: "hd (fst (checkAccountBalance v) @ rest) = View_balance"
  by (cases v; simp)


section \<open>The monitor and wait loops\<close>

lemma checkRateLimit_monitor_filter:
  "filter is_capacity_read (fst (checkRateLimit_monitor e v)) = [View_rate_limit_capacity e]"
  "filter is_execute (fst (checkRateLimit_monitor e v)) = []"
  by (cases v; simp)+

declare wait_attempts.simps [simp del]

lemma wait_attempts_found:
  assumes "a \<le> k" "k \<le> M"
    and "\<forall>i. a \<le> i \<and> i < k \<longrightarrow> \<not> hasCapacity (snd (checkRateLimit_monitor e (answers i)))"
    and "hasCapacity (snd (checkRateLimit_monitor e (answers k)))"
  shows "snd (wait_attempts e M a answers) \<and>
         length (filter is_capacity_read (fst (wait_attempts e M a answers))) = nat (k - a + 1)"
  using assms
proof (induction "nat (k - a)" arbitrary: a)
  case 0
  then have "a = k" by simp
  then show ?case using 0 by (subst (1 2) wait_attempts.simps) (simp add: checkRateLimit_monitor_filter)
next
  case (Suc d)
  then have ak: "a < k" by linarith
  have na: "\<not> hasCapacity (snd (checkRateLimit_monitor e (answers a)))" using Suc.prems ak by simp
  have IH: "snd (wait_attempts e M (a + 1) answers) \<and>
         length (filter is_capacity_read (fst (wait_attempts e M (a + 1) answers))) = nat (k - (a + 1) + 1)"
    using Suc.hyps(2) Suc.prems ak by (intro Suc.hyps(1)) auto
  have aM: "a \<le> M" using ak Suc.prems by linarith
  show ?case using IH na aM ak
    by (subst (1 2) wait_attempts.simps) (simp add: checkRateLimit_monitor_filter nat_add_distrib)
qed

lemma wait_attempts_exhausted:
  assumes "\<forall>i. a \<le> i \<and> i \<le> M \<longrightarrow> \<not> hasCapacity (snd (checkRateLimit_monitor e (answers i)))"
  shows "\<not> snd (wait_attempts e M a answers) \<and>
         length (filter is_capacity_read (fst (wait_attempts e M a answers))) = nat (M + 1 - a)"
  using assms
proof (induction "nat (M + 1 - a)" arbitrary: a)
  case 0
  then have "M < a" by simp
  then show ?case by (subst (1 2) wait_attempts.simps) simp
next
  case (Suc d)
  then have aM: "a \<le> M" by linarith
  have na: "\<not> hasCapacity (snd (checkRateLimit_monitor e (answers a)))" using Suc.prems aM by simp
  have IH: "\<not> snd (wait_attempts e M (a + 1) answers) \<and>
         length (filter is_capacity_read (fst (wait_attempts e M (a + 1) answers))) = nat (M + 1 - (a + 1))"
    using Suc.hyps(2) Suc.prems by (intro Suc.hyps(1)) auto
  show ?case using IH na aM
    by (subst (1 2) wait_attempts.simps) (simp add: checkRateLimit_monitor_filter nat_diff_distrib)
qed


lemma monitor_pass_counters:
  "consecutiveAvailable (snd (monitor_pass e i st v))
     = (if hasCapacity (snd (checkRateLimit_monitor e v)) then consecutiveAvailable st + 1 else 0)"
  "consecutiveBlocked (snd (monitor_pass e i st v))
     = (if hasCapacity (snd (checkRateLimit_monitor e v)) then 0 else consecutiveBlocked st + 1)"
  "filter is_execute (fst (monitor_pass e i st v)) = []"
  by (simp_all add: monitor_pass_def Let_def checkRateLimit_monitor_filter)

lemma monitor_pass_cut_counters:
  "consecutiveAvailable (snd (monitor_pass_cut e i st' v))
     = (if hasCapacity (snd (checkRateLimit_monitor e v)) then consecutiveAvailable st' + 1 else 0)"
  "consecutiveBlocked (snd (monitor_pass_cut e i st' v))
     = (if hasCapacity (snd (checkRateLimit_monitor e v)) then 0 else consecutiveBlocked st' + 1)"
  "filter is_execute (fst (monitor_pass_cut e i st' v)) = []"
  by (simp_all add: monitor_pass_cut_def Let_def checkRateLimit_monitor_filter
      split: option.splits)

lemma monitor_passes_append:
  "snd (monitor_passes e i st (xs @ ys)) = snd (monitor_passes e i (snd (monitor_passes e i st xs)) ys)"
  by (induction xs arbitrary: st) simp_all

lemma monitor_passes_cut_append:
  "snd (monitor_passes_cut e i st (xs @ ys))
     = snd (monitor_passes_cut e i (snd (monitor_passes_cut e i st xs)) ys)"
  by (induction xs arbitrary: st) simp_all

lemma monitor_passes_no_execute: "filter is_execute (fst (monitor_passes e i st vs)) = []"
  by (induction vs arbitrary: st) (simp_all add: monitor_pass_counters)

lemma monitor_passes_cut_no_execute:
  "filter is_execute (fst (monitor_passes_cut e i st vs)) = []"
  by (induction vs arbitrary: st) (simp_all add: monitor_pass_cut_counters)

lemma available_run:
  "list_all (\<lambda>v. hasCapacity (snd (checkRateLimit_monitor e v))) vs \<Longrightarrow>
   consecutiveAvailable (snd (monitor_passes e i st vs)) = consecutiveAvailable st + int (length vs)"
  by (induction vs arbitrary: st) (simp_all add: monitor_pass_counters)

lemma blocked_run:
  "list_all (\<lambda>v. \<not> hasCapacity (snd (checkRateLimit_monitor e v))) vs \<Longrightarrow>
   consecutiveBlocked (snd (monitor_passes e i st vs)) = consecutiveBlocked st + int (length vs)"
  by (induction vs arbitrary: st) (simp_all add: monitor_pass_counters)

lemma available_run_cut:
  "list_all (\<lambda>v. hasCapacity (snd (checkRateLimit_monitor e v))) vs \<Longrightarrow>
   consecutiveAvailable (snd (monitor_passes_cut e i st vs))
     = consecutiveAvailable st + int (length vs)"
  by (induction vs arbitrary: st) (simp_all add: monitor_pass_cut_counters)

lemma blocked_run_cut:
  "list_all (\<lambda>v. \<not> hasCapacity (snd (checkRateLimit_monitor e v))) vs \<Longrightarrow>
   consecutiveBlocked (snd (monitor_passes_cut e i st vs))
     = consecutiveBlocked st + int (length vs)"
  by (induction vs arbitrary: st) (simp_all add: monitor_pass_cut_counters)


lemma streak_inv_pass:
  assumes "0 \<le> consecutiveAvailable st" "0 \<le> consecutiveBlocked st"
    "min (consecutiveAvailable st) (consecutiveBlocked st) = 0"
  shows "0 \<le> consecutiveAvailable (snd (monitor_passes e i st vs)) \<and>
         0 \<le> consecutiveBlocked (snd (monitor_passes e i st vs)) \<and>
         min (consecutiveAvailable (snd (monitor_passes e i st vs)))
             (consecutiveBlocked (snd (monitor_passes e i st vs))) = 0"
  using assms
proof (induction vs arbitrary: st)
  case Nil
  then show ?case by simp
next
  case (Cons v vs)
  show ?case
    unfolding monitor_passes.simps snd_conv
    by (rule Cons.IH) (use Cons.prems in \<open>simp_all add: monitor_pass_counters\<close>)
qed

lemma streak_inv_pass_cut:
  assumes "0 \<le> consecutiveAvailable st" "0 \<le> consecutiveBlocked st"
    "min (consecutiveAvailable st) (consecutiveBlocked st) = 0"
  shows "0 \<le> consecutiveAvailable (snd (monitor_passes_cut e i st vs)) \<and>
         0 \<le> consecutiveBlocked (snd (monitor_passes_cut e i st vs)) \<and>
         min (consecutiveAvailable (snd (monitor_passes_cut e i st vs)))
             (consecutiveBlocked (snd (monitor_passes_cut e i st vs))) = 0"
  using assms
proof (induction vs arbitrary: st)
  case Nil
  then show ?case by simp
next
  case (Cons v vs)
  show ?case
    unfolding monitor_passes_cut.simps snd_conv
    by (rule Cons.IH) (use Cons.prems in \<open>simp_all add: monitor_pass_cut_counters\<close>)
qed


lemma MIN_BALANCE_value: "MIN_BALANCE = 30000000000"
  by (simp add: MIN_BALANCE_def TOKEN_DECIMALS_def)


section \<open>The threshold\<close>

text \<open>
  For a threshold written as a whole number of tokens \<open>T\<close> with \<open>T * 10^8 < 2^53\<close> both
  \<^verbatim>\<open>parseFloat\<close> and the product are exact, and a reading triggers exactly when it is at
  least \<open>T * 10^8\<close>, whatever its size.
\<close>

lemma threshold_exact_for_whole_tokens:
  assumes "ds \<noteq> []" "list_all is_digit ds" "dec_val ds * 10 ^ 8 < 2 ^ 53"
  shows "THRESHOLD_of ds = Fin (of_nat (dec_val ds * 10 ^ 8)) \<and>
         (js_ge (snd (checkRateLimit e (View_ok n))) (THRESHOLD_of ds)
            \<longleftrightarrow> dec_val ds * 10 ^ 8 \<le> n)"
proof -
  have T: "THRESHOLD_of ds = Fin (of_nat (dec_val ds * 10 ^ 8))"
    using assms by (rule THRESHOLD_of_digits)
  have "js_ge (Number_u64 n) (Fin (of_nat (dec_val ds * 10 ^ 8))) \<longleftrightarrow> dec_val ds * 10 ^ 8 \<le> n"
    using assms(3) by (rule Number_u64_ge_iff)
  then show ?thesis unfolding T by simp
qed

lemma threshold_2000_boundary:
  "THRESHOLD_of ''2000'' = Fin 200000000000 \<and>
   js_ge (snd (checkRateLimit e (View_ok 200000000000))) (THRESHOLD_of ''2000'') \<and>
   \<not> js_ge (snd (checkRateLimit e (View_ok 199999999999))) (THRESHOLD_of ''2000'')"
  by (simp add: THRESHOLD_of_2000 Number_u64_exact)

text \<open>
  Claim C1. The threshold is the configured decimal token value \<open>T\<close> scaled exactly by
  \<open>10^8\<close>, and a reading triggers exactly when it is at least \<open>T * 10^8\<close>, for any
  decimal \<open>T\<close>. The script computes \<^verbatim>\<open>parseFloat(T) * 100000000\<close> in binary64. For
  \<^verbatim>\<open>THRESHOLD_TOKENS=0.07\<close> the result is \<open>7000000 + 2^-30\<close>, not \<open>7000000\<close>: a reading
  of exactly \<open>0.07 * 10^8 = 7000000\<close> units is below it, and neither variant of the loop
  calls the executor.
\<close>

theorem threshold_not_exact_for_0_07:
  "THRESHOLD_of ''0.07'' = Fin (7000000 + 1 / 2 ^ 30) \<and>
   THRESHOLD_of ''0.07'' \<noteq> Fin (7 / 100 * 10 ^ 8) \<and>
   snd (checkRateLimit ENDPOINT_ID (View_ok 7000000)) = Fin (7 / 100 * 10 ^ 8) \<and>
   \<not> js_ge (snd (checkRateLimit ENDPOINT_ID (View_ok 7000000))) (THRESHOLD_of ''0.07'') \<and>
   cycle (Some ''0x01'') (THRESHOLD_of ''0.07'') \<lparr>transactionCount = 0, cycleCount = 0\<rparr>
     \<lparr>balance_check = View_ok 0, capacity_view = View_ok 7000000, balance_display = View_ok 0,
      tx = Committed\<rparr>
   = ([View_rate_limit_capacity 30101, Sleep 3000],
      Continue \<lparr>transactionCount = 0, cycleCount = 1\<rparr>) \<and>
   fst (cycle_v0 (Some ''0x01'') (THRESHOLD_of ''0.07'') 0 (View_ok 7000000, Committed))
   = [View_rate_limit_capacity 30101, Sleep 2000]"
  by (simp add: THRESHOLD_of_0_07 Number_u64_exact cycle_def cycle_v0_def Let_def js_rem_1
      ENDPOINT_ID_def)

section \<open>One trigger for a qualifying reading\<close>

text \<open>
  Claim C2. In a pass of the auto-trigger loop that takes its capacity reading, the
  reading is taken once; the executor is called exactly once if the capacity is at least
  the threshold and not at all otherwise; and no executor call precedes the reading. The
  next reading belongs to the next pass. The pass of the main script takes its reading
  unless it ends the process at the balance check; the pass of the earlier variant always
  does.
\<close>

theorem one_trigger_per_qualifying_reading:
  "(cycle recipient THRESHOLD st inp = (ev, Continue st') \<longrightarrow>
      length (filter is_capacity_read ev) = 1 \<and>
      length (filter is_execute ev) =
        (if js_ge (snd (checkRateLimit ENDPOINT_ID (capacity_view inp))) THRESHOLD then 1 else 0) \<and>
      filter is_execute (takeWhile (\<lambda>e. \<not> is_capacity_read e) ev) = []) \<and>
   length (filter is_capacity_read (fst (cycle_v0 recipient THRESHOLD n inp0))) = 1 \<and>
   length (filter is_execute (fst (cycle_v0 recipient THRESHOLD n inp0))) =
     (if js_ge (snd (checkRateLimit_v0 ENDPOINT_ID (fst inp0))) THRESHOLD then 1 else 0) \<and>
   filter is_execute
     (takeWhile (\<lambda>e. \<not> is_capacity_read e) (fst (cycle_v0 recipient THRESHOLD n inp0))) = []"
proof -
  have v0: "length (filter is_capacity_read (fst (cycle_v0 recipient THRESHOLD n inp0))) = 1 \<and>
   length (filter is_execute (fst (cycle_v0 recipient THRESHOLD n inp0))) =
     (if js_ge (snd (checkRateLimit_v0 ENDPOINT_ID (fst inp0))) THRESHOLD then 1 else 0) \<and>
   filter is_execute
     (takeWhile (\<lambda>e. \<not> is_capacity_read e) (fst (cycle_v0 recipient THRESHOLD n inp0))) = []"
    by (simp add: cycle_v0_def Let_def trigger_filter checkRateLimit_v0_filter)
  have v1: "length (filter is_capacity_read ev) = 1 \<and>
      length (filter is_execute ev) =
        (if js_ge (snd (checkRateLimit ENDPOINT_ID (capacity_view inp))) THRESHOLD then 1 else 0) \<and>
      filter is_execute (takeWhile (\<lambda>e. \<not> is_capacity_read e) ev) = []"
    if "cycle recipient THRESHOLD st inp = (ev, Continue st')"
    using that
    by (auto simp add: cycle_def Let_def trigger_filter checkRateLimit_filter
        checkAccountBalance_filter split: if_splits)
  show ?thesis using v0 v1 by blast
qed

theorem one_trigger_per_qualifying_reading_witness:
  "cycle (Some ''0x01'') (Fin 200000000000) \<lparr>transactionCount = 0, cycleCount = 0\<rparr>
     \<lparr>balance_check = View_ok 0, capacity_view = View_ok 200000000000,
      balance_display = View_ok 0, tx = Committed\<rparr>
   = ([View_rate_limit_capacity 30101, Execute_transaction (Fin 200000000000),
       Tx_build ''0x01'' (Fin 200000000000), Tx_sign, Tx_submit, Tx_wait, Sleep 3000],
      Continue \<lparr>transactionCount = 1, cycleCount = 1\<rparr>) \<and>
   length (filter is_execute
     [View_rate_limit_capacity 30101, Execute_transaction (Fin 200000000000),
      Tx_build ''0x01'' (Fin 200000000000), Tx_sign, Tx_submit, Tx_wait, Sleep 3000]) = 1"
  using one_trigger_per_qualifying_reading
    [of "Some ''0x01''" "Fin 200000000000" "\<lparr>transactionCount = 0, cycleCount = 0\<rparr>"
        "\<lparr>balance_check = View_ok 0, capacity_view = View_ok 200000000000,
          balance_display = View_ok 0, tx = Committed\<rparr>"
        "[View_rate_limit_capacity 30101, Execute_transaction (Fin 200000000000),
          Tx_build ''0x01'' (Fin 200000000000), Tx_sign, Tx_submit, Tx_wait, Sleep 3000]"
        "\<lparr>transactionCount = 1, cycleCount = 1\<rparr>"]
  by (simp add: cycle_def Let_def js_rem_1 ENDPOINT_ID_def Number_u64_exact trigger_def
      executeTransaction_def falsy_def)

section \<open>Missing configuration\<close>

text \<open>
  Claim C3. The absence of any required configuration value (signing credential,
  recipient, threshold, endpoint) is a fatal startup error: the process exits non-zero
  before any polling or triggering. The script checks \<^verbatim>\<open>PVK\<close> and
  \<^verbatim>\<open>THRESHOLD_TOKENS\<close> at startup, but \<^verbatim>\<open>RECIPIENT_ETH_ADDRESS\<close> only inside
  \<^verbatim>\<open>executeTransaction\<close>, whose error the loop catches. With the recipient unset the
  process polls, calls the executor on the qualifying reading, logs the failure and goes
  on; it never exits.
\<close>

theorem missing_recipient_is_not_fatal:
  "main_trigger
     \<lparr>PVK = Some ''0x01'', THRESHOLD_TOKENS = Some ''2000'', RECIPIENT_ETH_ADDRESS = None,
      key_accepted = True\<rparr>
     [\<lparr>balance_check = View_ok 0, capacity_view = View_ok 200000000000,
       balance_display = View_ok 0, tx = Committed\<rparr>,
      \<lparr>balance_check = View_ok 0, capacity_view = View_ok 0,
       balance_display = View_ok 0, tx = Committed\<rparr>]
   = ([View_rate_limit_capacity 30101, Execute_transaction (Fin 200000000000),
       Console_error ''Transaction #n failed:'', Sleep 3000,
       View_rate_limit_capacity 30101, Sleep 3000],
      Continue \<lparr>transactionCount = 1, cycleCount = 2\<rparr>)"
  by (simp add: main_trigger_def monitorAndTrigger_def falsy_def THRESHOLD_of_2000 cycle_def
      Let_def js_rem_def ENDPOINT_ID_def Number_u64_exact Number_u64_0 trigger_def
      executeTransaction_def)


text \<open>The two values that are checked at startup, for comparison.\<close>

lemma missing_key_or_threshold_is_fatal:
  assumes "falsy (PVK env) \<or> falsy (THRESHOLD_TOKENS env)"
  shows "main_trigger env inps = ([Console_error ''Fatal error:'', Process_exit 1], Exit 1)"
    and "main_trigger_v0 env inps0 = ([Console_error ''Fatal error:'', Process_exit 1], Exit 1)"
  using assms
  by (auto simp: main_trigger_def monitorAndTrigger_def main_trigger_v0_def
      monitorAndTrigger_v0_def)

text \<open>The transfer script checks its three variables together, recipient included.\<close>

lemma missing_transfer_variable_is_fatal:
  assumes "falsy (ETH_PVK env) \<or> falsy (ETH_RPC env) \<or> falsy (UPBIT_ADDRESS env)"
  shows "main_transfer env inps
           = ([Console_error ''Missing required environment variables'', Process_exit 1], Exit 1)"
  using assms by (auto simp: main_transfer_def)

section \<open>Failed reads\<close>

text \<open>
  A pass that is not ended by the balance check takes its capacity reading, ends with the
  three-second delay and hands over to the next pass; and no pass ends the process with a
  non-zero status or reaches the handler of \<^verbatim>\<open>main\<close>.
\<close>

lemma trigger_events:
  "Process_exit c \<notin> set (trigger r T sdk)"
  "Console_error ''Fatal error:'' \<notin> set (trigger r T sdk)"
  "trigger r T sdk \<noteq> []"
  by (cases sdk; simp add: trigger_def executeTransaction_def Let_def)+

lemma reader_events:
  "Process_exit c \<notin> set (fst (checkRateLimit e v))"
  "Console_error ''Fatal error:'' \<notin> set (fst (checkRateLimit e v))"
  "Process_exit c \<notin> set (fst (checkAccountBalance v))"
  "Console_error ''Fatal error:'' \<notin> set (fst (checkAccountBalance v))"
  by (cases v; simp)+

lemma cycle_never_fatal:
  "snd (cycle r T st inp) \<noteq> Exit 1"
  "Process_exit 1 \<notin> set (fst (cycle r T st inp))"
  "Console_error ''Fatal error:'' \<notin> set (fst (cycle r T st inp))"
  by (simp_all add: cycle_def Let_def trigger_events reader_events)

lemma monitor_loop_never_fatal:
  "snd (monitor_loop r T st inps) \<noteq> Exit 1 \<and>
   Process_exit 1 \<notin> set (fst (monitor_loop r T st inps)) \<and>
   Console_error ''Fatal error:'' \<notin> set (fst (monitor_loop r T st inps))"
proof (induction inps arbitrary: st)
  case Nil
  then show ?case by simp
next
  case (Cons inp inps)
  obtain ev res where c: "cycle r T st inp = (ev, res)" by (cases "cycle r T st inp")
  show ?case
  proof (cases res)
    case (Continue st')
    then show ?thesis
      using Cons.IH[of st'] cycle_never_fatal(2,3)[of r T st inp] c by simp
  next
    case (Exit k)
    then show ?thesis
      using cycle_never_fatal[of r T st inp] c by simp
  qed
qed

lemma main_trigger_never_fatal:
  assumes "\<not> falsy (PVK env)" "\<not> falsy (THRESHOLD_TOKENS env)" "key_accepted env"
  shows "snd (main_trigger env inps) \<noteq> Exit 1 \<and>
         Process_exit 1 \<notin> set (fst (main_trigger env inps)) \<and>
         Console_error ''Fatal error:'' \<notin> set (fst (main_trigger env inps))"
  using assms
    monitor_loop_never_fatal[of "RECIPIENT_ETH_ADDRESS env"
      "THRESHOLD_of (the (THRESHOLD_TOKENS env))" "\<lparr>transactionCount = 0, cycleCount = 0\<rparr>" inps]
  by (auto simp: main_trigger_def monitorAndTrigger_def split: prod.splits)

lemma cycle_continues:
  assumes "\<not> (js_rem (cycleCount st + 1) 10 = 0 \<and>
              js_le (js_div (snd (checkAccountBalance (balance_check inp))) (Fin 100000000))
                (Fin 1000))"
  shows "\<exists>st'. snd (cycle r T st inp) = Continue st' \<and>
           cycleCount st' = cycleCount st + 1 \<and>
           monitor_loop r T st (inp # inps)
             = (fst (cycle r T st inp) @ fst (monitor_loop r T st' inps),
                snd (monitor_loop r T st' inps))"
    and "last (fst (cycle r T st inp)) = Sleep 3000"
    and "length (filter is_capacity_read (fst (cycle r T st inp))) = 1"
  using assms
  by (auto simp: cycle_def Let_def trigger_filter checkRateLimit_filter
      checkAccountBalance_filter split: prod.splits)

lemma fl_2000: "fl 2000 = Fin 2000"
  using fl_of_nat_exact[of 2000] by simp


text \<open>
  Claim C4. In a pass of the auto-trigger loop that reaches its capacity read (it is not
  ended by the balance check) and whose read fails, the failure is treated as the reading
  zero: the value compared is \<open>0\<close>, the error is written to the console, and apart from
  console lines the pass does what it does on the answer \<open>0\<close>. The pass does not end the
  process: it ends with the three-second delay and the loop goes on with the next pass.
  With the startup values present, no run of the script ends with status 1 or reaches the
  fatal-error handler of \<^verbatim>\<open>main\<close>, whatever the reads answer.
\<close>

theorem failed_read_is_zero_reading:
  "(capacity_view inp = View_fails \<and>
    \<not> (js_rem (cycleCount st + 1) 10 = 0 \<and>
       js_le (js_div (snd (checkAccountBalance (balance_check inp))) (Fin 100000000))
         (Fin 1000)) \<longrightarrow>
      snd (checkRateLimit ENDPOINT_ID (capacity_view inp)) = Fin 0 \<and>
      Console_error ''Error checking rate limit:'' \<in> set (fst (cycle r T st inp)) \<and>
      snd (cycle r T st (inp\<lparr>capacity_view := View_ok 0\<rparr>)) = snd (cycle r T st inp) \<and>
      filter (\<lambda>e. \<not> is_console_error e) (fst (cycle r T st (inp\<lparr>capacity_view := View_ok 0\<rparr>)))
        = filter (\<lambda>e. \<not> is_console_error e) (fst (cycle r T st inp)) \<and>
      last (fst (cycle r T st inp)) = Sleep 3000 \<and>
      (\<exists>st'. snd (cycle r T st inp) = Continue st' \<and>
         cycleCount st' = cycleCount st + 1 \<and>
         monitor_loop r T st (inp # inps)
           = (fst (cycle r T st inp) @ fst (monitor_loop r T st' inps),
              snd (monitor_loop r T st' inps)))) \<and>
   (\<not> falsy (PVK env) \<and> \<not> falsy (THRESHOLD_TOKENS env) \<and> key_accepted env \<longrightarrow>
      snd (main_trigger env inps) \<noteq> Exit 1 \<and>
      Process_exit 1 \<notin> set (fst (main_trigger env inps)) \<and>
      Console_error ''Fatal error:'' \<notin> set (fst (main_trigger env inps)))"
proof -
  have a: "snd (checkRateLimit ENDPOINT_ID (capacity_view inp)) = Fin 0 \<and>
      Console_error ''Error checking rate limit:'' \<in> set (fst (cycle r T st inp)) \<and>
      snd (cycle r T st (inp\<lparr>capacity_view := View_ok 0\<rparr>)) = snd (cycle r T st inp) \<and>
      filter (\<lambda>e. \<not> is_console_error e) (fst (cycle r T st (inp\<lparr>capacity_view := View_ok 0\<rparr>)))
        = filter (\<lambda>e. \<not> is_console_error e) (fst (cycle r T st inp))"
    if "capacity_view inp = View_fails"
      "\<not> (js_rem (cycleCount st + 1) 10 = 0 \<and>
         js_le (js_div (snd (checkAccountBalance (balance_check inp))) (Fin 100000000))
           (Fin 1000))"
    using that by (auto simp: cycle_def Let_def Number_u64_0)
  show ?thesis
    using a cycle_continues(1)[where st = st and inp = inp and r = r and T = T and inps = inps]
      cycle_continues(2)[where st = st and inp = inp and r = r and T = T]
      main_trigger_never_fatal[of env inps]
    by blast
qed


theorem failed_read_is_zero_reading_witness:
  "capacity_view \<lparr>balance_check = View_ok 200000000000, capacity_view = View_fails,
       balance_display = View_ok 200000000000, tx = Committed\<rparr> = View_fails \<and>
   \<not> (js_rem (cycleCount \<lparr>transactionCount = 2, cycleCount = 9\<rparr> + 1) 10 = 0 \<and>
      js_le (js_div (snd (checkAccountBalance (View_ok 200000000000))) (Fin 100000000))
        (Fin 1000)) \<and>
   cycle (Some ''0x01'') (Fin 200000000000) \<lparr>transactionCount = 2, cycleCount = 9\<rparr>
     \<lparr>balance_check = View_ok 200000000000, capacity_view = View_fails,
       balance_display = View_ok 200000000000, tx = Committed\<rparr>
   = ([View_balance, View_rate_limit_capacity 30101,
       Console_error ''Error checking rate limit:'', Console_error ''Full error details:'',
       View_balance, Sleep 3000],
      Continue \<lparr>transactionCount = 2, cycleCount = 10\<rparr>) \<and>
   (\<exists>st'. snd (cycle (Some ''0x01'') (Fin 200000000000)
                 \<lparr>transactionCount = 2, cycleCount = 9\<rparr>
                 \<lparr>balance_check = View_ok 200000000000, capacity_view = View_fails,
                  balance_display = View_ok 200000000000, tx = Committed\<rparr>) = Continue st' \<and>
      cycleCount st' = 10) \<and>
   \<not> falsy (Some ''0x01'') \<and> \<not> falsy (Some ''2000'') \<and>
   main_trigger
     \<lparr>PVK = Some ''0x01'', THRESHOLD_TOKENS = Some ''2000'',
      RECIPIENT_ETH_ADDRESS = Some ''0x01'', key_accepted = True\<rparr>
     [\<lparr>balance_check = View_ok 0, capacity_view = View_fails,
       balance_display = View_ok 0, tx = Committed\<rparr>,
      \<lparr>balance_check = View_ok 0, capacity_view = View_fails,
       balance_display = View_ok 0, tx = Committed\<rparr>]
   = ([View_rate_limit_capacity 30101, Console_error ''Error checking rate limit:'',
       Console_error ''Full error details:'', Sleep 3000,
       View_rate_limit_capacity 30101, Console_error ''Error checking rate limit:'',
       Console_error ''Full error details:'', Sleep 3000],
      Continue \<lparr>transactionCount = 0, cycleCount = 2\<rparr>) \<and>
   snd (main_trigger
     \<lparr>PVK = Some ''0x01'', THRESHOLD_TOKENS = Some ''2000'',
      RECIPIENT_ETH_ADDRESS = Some ''0x01'', key_accepted = True\<rparr>
     [\<lparr>balance_check = View_ok 0, capacity_view = View_fails,
       balance_display = View_ok 0, tx = Committed\<rparr>,
      \<lparr>balance_check = View_ok 0, capacity_view = View_fails,
       balance_display = View_ok 0, tx = Committed\<rparr>]) \<noteq> Exit 1"
  using failed_read_is_zero_reading
    [where inp = "\<lparr>balance_check = View_ok 200000000000, capacity_view = View_fails,
                    balance_display = View_ok 200000000000, tx = Committed\<rparr>"
       and r = "Some ''0x01''" and T = "Fin 200000000000"
       and st = "\<lparr>transactionCount = 2, cycleCount = 9\<rparr>"
       and inps = "[\<lparr>balance_check = View_ok 0, capacity_view = View_fails,
                     balance_display = View_ok 0, tx = Committed\<rparr>,
                    \<lparr>balance_check = View_ok 0, capacity_view = View_fails,
                     balance_display = View_ok 0, tx = Committed\<rparr>]"
       and env = "\<lparr>PVK = Some ''0x01'', THRESHOLD_TOKENS = Some ''2000'',
                    RECIPIENT_ETH_ADDRESS = Some ''0x01'', key_accepted = True\<rparr>"]
  by (simp add: cycle_def Let_def js_rem_def ENDPOINT_ID_def falsy_def Number_u64_exact
      fl_2000 js_le_def main_trigger_def monitorAndTrigger_def THRESHOLD_of_2000)


section \<open>Failed triggers\<close>

text \<open>
  Claim C5. When the capacity reaches the threshold and the transaction fails, in either
  variant of the loop, the pass does not end the process: it continues to the next pass
  with \<^verbatim>\<open>transactionCount\<close> incremented, and the state it hands on is the same whatever
  the outcome of the transaction; the executor is called once in the pass (no retry); the
  failure is logged; the pass ends with the delay. In the main script this is said of
  every pass that is not ended by the balance check, which comes before the reading.
\<close>

theorem failed_trigger_counted_and_not_retried:
  "(\<not> (js_rem (cycleCount st + 1) 10 = 0 \<and>
       js_le (js_div (snd (checkAccountBalance (balance_check inp))) (Fin 100000000))
         (Fin 1000)) \<and>
    js_ge (snd (checkRateLimit ENDPOINT_ID (capacity_view inp))) T \<and>
    snd (executeTransaction r T (tx inp)) = Inl err \<longrightarrow>
      (\<exists>st'. snd (cycle r T st inp) = Continue st' \<and>
         transactionCount st' = transactionCount st + 1 \<and>
         cycleCount st' = cycleCount st + 1 \<and>
         (\<forall>sdk. snd (cycle r T st (inp\<lparr>tx := sdk\<rparr>)) = Continue st') \<and>
         monitor_loop r T st (inp # inps)
           = (fst (cycle r T st inp) @ fst (monitor_loop r T st' inps),
              snd (monitor_loop r T st' inps))) \<and>
      length (filter is_execute (fst (cycle r T st inp))) = 1 \<and>
      Console_error ''Transaction #n failed:'' \<in> set (fst (cycle r T st inp)) \<and>
      last (fst (cycle r T st inp)) = Sleep 3000) \<and>
   (js_ge (snd (checkRateLimit_v0 ENDPOINT_ID (fst inp0))) T \<and>
    snd (executeTransaction r T (snd inp0)) = Inl err \<longrightarrow>
      snd (cycle_v0 r T n inp0) = n + 1 \<and>
      (\<forall>sdk. snd (cycle_v0 r T n (fst inp0, sdk)) = n + 1) \<and>
      length (filter is_execute (fst (cycle_v0 r T n inp0))) = 1 \<and>
      Console_error ''Transaction #n failed:'' \<in> set (fst (cycle_v0 r T n inp0)) \<and>
      last (fst (cycle_v0 r T n inp0)) = Sleep 2000 \<and>
      monitor_loop_v0 r T n (inp0 # inps0)
        = (fst (cycle_v0 r T n inp0) @ fst (monitor_loop_v0 r T (n + 1) inps0),
           snd (monitor_loop_v0 r T (n + 1) inps0)))"
proof -
  have a: "(\<exists>st'. snd (cycle r T st inp) = Continue st' \<and>
         transactionCount st' = transactionCount st + 1 \<and>
         cycleCount st' = cycleCount st + 1 \<and>
         (\<forall>sdk. snd (cycle r T st (inp\<lparr>tx := sdk\<rparr>)) = Continue st') \<and>
         monitor_loop r T st (inp # inps)
           = (fst (cycle r T st inp) @ fst (monitor_loop r T st' inps),
              snd (monitor_loop r T st' inps))) \<and>
      length (filter is_execute (fst (cycle r T st inp))) = 1 \<and>
      Console_error ''Transaction #n failed:'' \<in> set (fst (cycle r T st inp))"
    if "\<not> (js_rem (cycleCount st + 1) 10 = 0 \<and>
         js_le (js_div (snd (checkAccountBalance (balance_check inp))) (Fin 100000000))
           (Fin 1000))"
      "js_ge (snd (checkRateLimit ENDPOINT_ID (capacity_view inp))) T"
      "snd (executeTransaction r T (tx inp)) = Inl err"
    using that trigger_failed_logged[of r T "tx inp" err]
    by (auto simp: cycle_def Let_def trigger_filter checkRateLimit_filter
        checkAccountBalance_filter)
  have b: "snd (cycle_v0 r T n inp0) = n + 1 \<and>
      (\<forall>sdk. snd (cycle_v0 r T n (fst inp0, sdk)) = n + 1) \<and>
      length (filter is_execute (fst (cycle_v0 r T n inp0))) = 1 \<and>
      Console_error ''Transaction #n failed:'' \<in> set (fst (cycle_v0 r T n inp0)) \<and>
      last (fst (cycle_v0 r T n inp0)) = Sleep 2000 \<and>
      monitor_loop_v0 r T n (inp0 # inps0)
        = (fst (cycle_v0 r T n inp0) @ fst (monitor_loop_v0 r T (n + 1) inps0),
           snd (monitor_loop_v0 r T (n + 1) inps0))"
    if "js_ge (snd (checkRateLimit_v0 ENDPOINT_ID (fst inp0))) T"
       "snd (executeTransaction r T (snd inp0)) = Inl err"
    using that trigger_failed_logged[of r T "snd inp0" err]
    by (simp add: cycle_v0_def Let_def trigger_filter checkRateLimit_v0_filter)
  show ?thesis
    using a b cycle_continues(2)[where st = st and inp = inp and r = r and T = T] by blast
qed


theorem failed_trigger_counted_and_not_retried_witness:
  "\<not> (js_rem (cycleCount \<lparr>transactionCount = 2, cycleCount = 9\<rparr> + 1) 10 = 0 \<and>
      js_le (js_div (snd (checkAccountBalance (View_ok 200000000000))) (Fin 100000000))
        (Fin 1000)) \<and>
   js_ge (snd (checkRateLimit ENDPOINT_ID (View_ok 200000000000))) (Fin 200000000000) \<and>
   snd (executeTransaction (Some ''0x01'') (Fin 200000000000) Submit_fails) = Inl Rejected \<and>
   js_ge (snd (checkRateLimit_v0 ENDPOINT_ID (View_ok 200000000000))) (Fin 200000000000) \<and>
   cycle (Some ''0x01'') (Fin 200000000000) \<lparr>transactionCount = 2, cycleCount = 9\<rparr>
     \<lparr>balance_check = View_ok 200000000000, capacity_view = View_ok 200000000000,
       balance_display = View_ok 200000000000, tx = Submit_fails\<rparr>
   = ([View_balance, View_rate_limit_capacity 30101, View_balance,
       Execute_transaction (Fin 200000000000),
       Tx_build ''0x01'' (Fin 200000000000), Tx_sign, Tx_submit,
       Console_error ''Transaction failed:'', Console_error ''Transaction #n failed:'',
       Sleep 3000],
      Continue \<lparr>transactionCount = 3, cycleCount = 10\<rparr>) \<and>
   (\<exists>st'. snd (cycle (Some ''0x01'') (Fin 200000000000)
                 \<lparr>transactionCount = 2, cycleCount = 9\<rparr>
                 \<lparr>balance_check = View_ok 200000000000, capacity_view = View_ok 200000000000,
                  balance_display = View_ok 200000000000, tx = Submit_fails\<rparr>) = Continue st' \<and>
      transactionCount st' = 2 + 1) \<and>
   snd (cycle_v0 (Some ''0x01'') (Fin 200000000000) 7 (View_ok 200000000000, Submit_fails)) = 8"
  using failed_trigger_counted_and_not_retried
    [where inp = "\<lparr>balance_check = View_ok 200000000000, capacity_view = View_ok 200000000000,
                    balance_display = View_ok 200000000000, tx = Submit_fails\<rparr>"
       and r = "Some ''0x01''" and T = "Fin 200000000000"
       and st = "\<lparr>transactionCount = 2, cycleCount = 9\<rparr>"
       and err = Rejected and inps = "[]" and inps0 = "[]" and n = 7
       and ?inp0.0 = "(View_ok 200000000000, Submit_fails)"]
  by (simp add: cycle_def Let_def js_rem_def ENDPOINT_ID_def falsy_def Number_u64_exact
      fl_2000 js_le_def trigger_def executeTransaction_def)

section \<open>The balance floor\<close>

text \<open>
  Claim C6. Every tenth pass of the auto-trigger loop starts by reading the account
  balance, and the other passes do not read it. If that balance is below the floor of
  1000 tokens (\<open>1000 * 10^8\<close> units) the process exits with status 0 at once: the pass
  consists of the balance read and the exit, with no capacity read and no executor call,
  and nothing follows.
\<close>

theorem balance_floor_ends_the_process:
  "(js_rem (cycleCount st + 1) 10 = 0 \<and> balance_check inp = View_ok b \<and> b < 1000 * 10 ^ 8 \<longrightarrow>
      cycle r T st inp = ([View_balance, Process_exit 0], Exit 0) \<and>
      monitor_loop r T st (inp # inps) = ([View_balance, Process_exit 0], Exit 0)) \<and>
   (js_rem (cycleCount st + 1) 10 = 0 \<longrightarrow> hd (fst (cycle r T st inp)) = View_balance) \<and>
   (js_rem (cycleCount st + 1) 10 \<noteq> 0 \<longrightarrow> View_balance \<notin> set (fst (cycle r T st inp)))"
proof -
  have a: "cycle r T st inp = ([View_balance, Process_exit 0], Exit 0)"
    if "js_rem (cycleCount st + 1) 10 = 0" "balance_check inp = View_ok b" "b < 1000 * 10 ^ 8"
    using that balance_below_floor[of b] by (simp add: cycle_def Let_def)
  have c: "hd (fst (cycle r T st inp)) = View_balance" if "js_rem (cycleCount st + 1) 10 = 0"
    using that by (simp add: cycle_def Let_def checkAccountBalance_hd)
  have d: "View_balance \<notin> set (fst (cycle r T st inp))" if "js_rem (cycleCount st + 1) 10 \<noteq> 0"
    using that by (simp add: cycle_def Let_def trigger_no_balance checkRateLimit_no_balance)
  show ?thesis using a c d by (auto simp del: monitor_loop.simps simp add: monitor_loop_Exit)
qed

theorem balance_floor_ends_the_process_witness:
  "js_rem (cycleCount \<lparr>transactionCount = 3, cycleCount = 9\<rparr> + 1) 10 = 0 \<and>
   (99999999999::nat) < 1000 * 10 ^ 8 \<and>
   monitor_loop (Some ''0x01'') (Fin 200000000000) \<lparr>transactionCount = 3, cycleCount = 9\<rparr>
     [\<lparr>balance_check = View_ok 99999999999, capacity_view = View_ok 200000000000,
       balance_display = View_ok 99999999999, tx = Committed\<rparr>,
      \<lparr>balance_check = View_ok 0, capacity_view = View_ok 200000000000,
       balance_display = View_ok 0, tx = Committed\<rparr>]
   = ([View_balance, Process_exit 0], Exit 0) \<and>
   js_rem (cycleCount \<lparr>transactionCount = 0, cycleCount = 0\<rparr> + 1) 10 \<noteq> 0 \<and>
   View_balance \<notin> set (fst (cycle (Some ''0x01'') (Fin 200000000000)
     \<lparr>transactionCount = 0, cycleCount = 0\<rparr>
     \<lparr>balance_check = View_ok 0, capacity_view = View_ok 200000000000,
       balance_display = View_ok 0, tx = Committed\<rparr>))"
  using balance_floor_ends_the_process
    [where st = "\<lparr>transactionCount = 3, cycleCount = 9\<rparr>"
       and inp = "\<lparr>balance_check = View_ok 99999999999, capacity_view = View_ok 200000000000,
                    balance_display = View_ok 99999999999, tx = Committed\<rparr>"
       and b = 99999999999 and r = "Some ''0x01''" and T = "Fin 200000000000"
       and inps = "[\<lparr>balance_check = View_ok 0, capacity_view = View_ok 200000000000,
                     balance_display = View_ok 0, tx = Committed\<rparr>]"]
    balance_floor_ends_the_process
    [where st = "\<lparr>transactionCount = 0, cycleCount = 0\<rparr>"
       and inp = "\<lparr>balance_check = View_ok 0, capacity_view = View_ok 200000000000,
                    balance_display = View_ok 0, tx = Committed\<rparr>"
       and r = "Some ''0x01''" and T = "Fin 200000000000"]
  by (simp add: js_rem_def del: monitor_loop.simps)

text \<open>
  A balance read that fails counts as the balance 0, so it ends the process in the same
  way.
\<close>

lemma failed_balance_read_ends_the_process:
  assumes "js_rem (cycleCount st + 1) 10 = 0" "balance_check inp = View_fails"
  shows "monitor_loop r T st (inp # inps)
           = ([View_balance, Console_error ''Error checking balance:'',
               Console_error ''Full error details:'', Process_exit 0], Exit 0)"
  using assms by (simp add: cycle_def Let_def fl_def js_le_def)

section \<open>Waiting for capacity\<close>

text \<open>
  Claim C7. \<^verbatim>\<open>waitForRateLimit\<close> makes at most \<open>maxWaitMinutes * 60 / 5\<close> readings. If
  the readings of attempts \<open>1, \<dots>, k - 1\<close> are unavailable and that of attempt \<open>k\<close> is
  available, with \<open>k\<close> within this budget, it returns \<^verbatim>\<open>true\<close> after exactly \<open>k\<close>
  readings. If every reading within the budget is unavailable it returns \<^verbatim>\<open>false\<close>, after
  as many readings as the budget has. \<^verbatim>\<open>main\<close> exits with 0 on \<^verbatim>\<open>true\<close> and 1 on
  \<^verbatim>\<open>false\<close>, in both variants of the script.
\<close>

theorem wait_succeeds_at_first_available_reading:
  "(1 \<le> k \<and> k \<le> (maxWaitMinutes * 60) div 5 \<and>
    (\<forall>i. 1 \<le> i \<and> i < k \<longrightarrow> \<not> hasCapacity (snd (checkRateLimit_monitor e (answers i)))) \<and>
    hasCapacity (snd (checkRateLimit_monitor e (answers k))) \<longrightarrow>
      snd (waitForRateLimit e maxWaitMinutes answers) \<and>
      int (length (filter is_capacity_read (fst (waitForRateLimit e maxWaitMinutes answers)))) = k \<and>
      int (length (filter is_capacity_read (fst (waitForRateLimit e maxWaitMinutes answers))))
        \<le> (maxWaitMinutes * 60) div 5) \<and>
   ((\<forall>i. 1 \<le> i \<and> i \<le> (maxWaitMinutes * 60) div 5 \<longrightarrow>
        \<not> hasCapacity (snd (checkRateLimit_monitor e (answers i)))) \<longrightarrow>
      \<not> snd (waitForRateLimit e maxWaitMinutes answers) \<and>
      length (filter is_capacity_read (fst (waitForRateLimit e maxWaitMinutes answers)))
        = nat ((maxWaitMinutes * 60) div 5)) \<and>
   (command args = Some ''wait'' \<longrightarrow>
      snd (main_rate_limit args answers passes)
        = Exit (if snd (waitForRateLimit (or_default (arg1 args) 30101)
                          (or_default (arg2 args) 10) answers) then 0 else 1) \<and>
      snd (main_rate_limit_cut args answers passes)
        = Exit (if snd (waitForRateLimit (or_default (arg1 args) 30101)
                          (or_default (arg2 args) 10) answers) then 0 else 1))"
proof -
  let ?M = "(maxWaitMinutes * 60) div 5"
  have a: "snd (waitForRateLimit e maxWaitMinutes answers) \<and>
      int (length (filter is_capacity_read (fst (waitForRateLimit e maxWaitMinutes answers)))) = k"
    if "1 \<le> k" "k \<le> ?M"
      "\<forall>i. 1 \<le> i \<and> i < k \<longrightarrow> \<not> hasCapacity (snd (checkRateLimit_monitor e (answers i)))"
      "hasCapacity (snd (checkRateLimit_monitor e (answers k)))"
    using wait_attempts_found[OF that] that(1) by (simp add: waitForRateLimit_def)
  have b: "\<not> snd (waitForRateLimit e maxWaitMinutes answers) \<and>
      length (filter is_capacity_read (fst (waitForRateLimit e maxWaitMinutes answers))) = nat ?M"
    if "\<forall>i. 1 \<le> i \<and> i \<le> ?M \<longrightarrow> \<not> hasCapacity (snd (checkRateLimit_monitor e (answers i)))"
    using wait_attempts_exhausted[OF that] by (simp add: waitForRateLimit_def)
  have c: "snd (main_rate_limit args answers passes)
        = Exit (if snd (waitForRateLimit (or_default (arg1 args) 30101)
                          (or_default (arg2 args) 10) answers) then 0 else 1) \<and>
      snd (main_rate_limit_cut args answers passes)
        = Exit (if snd (waitForRateLimit (or_default (arg1 args) 30101)
                          (or_default (arg2 args) 10) answers) then 0 else 1)"
    if "command args = Some ''wait''"
    using that by (simp add: main_rate_limit_def main_rate_limit_cut_def Let_def falsy_def)
  show ?thesis using a b c by auto
qed

theorem wait_succeeds_at_first_available_reading_witness:
  "(1::int) \<le> 3 \<and> (3::int) \<le> (1 * 60) div 5 \<and>
   \<not> hasCapacity (snd (checkRateLimit_monitor 30101 View_fails)) \<and>
   hasCapacity (snd (checkRateLimit_monitor 30101 (View_ok 5))) \<and>
   snd (waitForRateLimit 30101 1 (\<lambda>i. if i = 3 then View_ok 5 else View_fails)) \<and>
   length (filter is_capacity_read
     (fst (waitForRateLimit 30101 1 (\<lambda>i. if i = 3 then View_ok 5 else View_fails)))) = 3 \<and>
   \<not> snd (waitForRateLimit 30101 1 (\<lambda>i. View_fails)) \<and>
   length (filter is_capacity_read (fst (waitForRateLimit 30101 1 (\<lambda>i. View_fails)))) = 12 \<and>
   snd (main_rate_limit \<lparr>command = Some ''wait'', arg1 = None, arg2 = Some 1\<rparr>
          (\<lambda>i. View_fails) 0) = Exit 1 \<and>
   snd (main_rate_limit \<lparr>command = Some ''wait'', arg1 = None, arg2 = Some 1\<rparr>
          (\<lambda>i. if i = 3 then View_ok 5 else View_fails) 0) = Exit 0"
  using wait_succeeds_at_first_available_reading
    [where k = 3 and maxWaitMinutes = 1 and e = 30101
       and answers = "\<lambda>i. if i = 3 then View_ok 5 else View_fails"
       and args = "\<lparr>command = Some ''wait'', arg1 = None, arg2 = Some 1\<rparr>" and passes = 0]
    wait_succeeds_at_first_available_reading
    [where k = 3 and maxWaitMinutes = 1 and e = 30101 and answers = "\<lambda>i. View_fails"
       and args = "\<lparr>command = Some ''wait'', arg1 = None, arg2 = Some 1\<rparr>" and passes = 0]
  by (simp add: Number_u64_exact or_default_def)


section \<open>Streak counters\<close>

text \<open>
  Claim C8. In monitor mode, starting where \<^verbatim>\<open>consecutiveAvailable\<close> is 0 (at the
  start of the loop or after an unavailable reading), a run of \<open>k\<close> available readings
  leaves \<^verbatim>\<open>consecutiveAvailable = k\<close>, and one unavailable reading after it resets the
  counter to 0. The same holds for \<^verbatim>\<open>consecutiveBlocked\<close> with the two kinds of reading
  exchanged. In any pass the counter of the reading's kind goes up by one and the other
  one is reset. The monitor never calls the executor. All of this holds for both variants
  of the loop.
\<close>

theorem streak_counters_follow_the_run:
  "(list_all (\<lambda>v. hasCapacity (snd (checkRateLimit_monitor e v))) vs \<and>
    \<not> hasCapacity (snd (checkRateLimit_monitor e u)) \<and>
    consecutiveAvailable st = 0 \<and> consecutiveAvailable stc = 0 \<longrightarrow>
      consecutiveAvailable (snd (monitor_passes e i st vs)) = int (length vs) \<and>
      consecutiveAvailable (snd (monitor_passes e i st (vs @ [u]))) = 0 \<and>
      consecutiveAvailable (snd (monitor_passes_cut e i stc vs)) = int (length vs) \<and>
      consecutiveAvailable (snd (monitor_passes_cut e i stc (vs @ [u]))) = 0) \<and>
   (list_all (\<lambda>v. \<not> hasCapacity (snd (checkRateLimit_monitor e v))) ws \<and>
    hasCapacity (snd (checkRateLimit_monitor e a)) \<and>
    consecutiveBlocked st = 0 \<and> consecutiveBlocked stc = 0 \<longrightarrow>
      consecutiveBlocked (snd (monitor_passes e i st ws)) = int (length ws) \<and>
      consecutiveBlocked (snd (monitor_passes e i st (ws @ [a]))) = 0 \<and>
      consecutiveBlocked (snd (monitor_passes_cut e i stc ws)) = int (length ws) \<and>
      consecutiveBlocked (snd (monitor_passes_cut e i stc (ws @ [a]))) = 0) \<and>
   consecutiveAvailable (snd (monitor_pass e i st x))
     = (if hasCapacity (snd (checkRateLimit_monitor e x)) then consecutiveAvailable st + 1 else 0) \<and>
   consecutiveBlocked (snd (monitor_pass e i st x))
     = (if hasCapacity (snd (checkRateLimit_monitor e x)) then 0 else consecutiveBlocked st + 1) \<and>
   consecutiveAvailable (snd (monitor_pass_cut e i stc x))
     = (if hasCapacity (snd (checkRateLimit_monitor e x)) then consecutiveAvailable stc + 1 else 0) \<and>
   consecutiveBlocked (snd (monitor_pass_cut e i stc x))
     = (if hasCapacity (snd (checkRateLimit_monitor e x)) then 0 else consecutiveBlocked stc + 1) \<and>
   filter is_execute (fst (monitorRateLimit e i xs)) = [] \<and>
   filter is_execute (fst (monitorRateLimit_cut e i xs)) = []"
  by (simp add: monitor_passes_append monitor_passes_cut_append available_run blocked_run
      available_run_cut blocked_run_cut monitor_pass_counters monitor_pass_cut_counters
      monitorRateLimit_def monitorRateLimit_cut_def monitor_passes_no_execute
      monitor_passes_cut_no_execute)


theorem streak_counters_follow_the_run_witness:
  "list_all (\<lambda>v. hasCapacity (snd (checkRateLimit_monitor 30101 v))) [View_ok 5, View_ok 7] \<and>
   \<not> hasCapacity (snd (checkRateLimit_monitor 30101 View_fails)) \<and>
   consecutiveAvailable
     (snd (monitor_passes 30101 5 \<lparr>consecutiveAvailable = 0, consecutiveBlocked = 4\<rparr>
        [View_ok 5, View_ok 7])) = 2 \<and>
   consecutiveAvailable
     (snd (monitor_passes 30101 5 \<lparr>consecutiveAvailable = 0, consecutiveBlocked = 4\<rparr>
        ([View_ok 5, View_ok 7] @ [View_fails]))) = 0 \<and>
   list_all (\<lambda>v. \<not> hasCapacity (snd (checkRateLimit_monitor 30101 v))) [View_fails, View_ok 0] \<and>
   consecutiveBlocked
     (snd (monitor_passes_cut 30101 5
        \<lparr>consecutiveAvailable = 0, consecutiveBlocked = 0, previousCapacity = None\<rparr>
        [View_fails, View_ok 0])) = 2 \<and>
   consecutiveBlocked
     (snd (monitor_passes_cut 30101 5
        \<lparr>consecutiveAvailable = 0, consecutiveBlocked = 0, previousCapacity = None\<rparr>
        ([View_fails, View_ok 0] @ [View_ok 5]))) = 0"
  using streak_counters_follow_the_run
    [where e = 30101 and i = 5 and vs = "[View_ok 5, View_ok 7]" and u = View_fails
       and st = "\<lparr>consecutiveAvailable = 0, consecutiveBlocked = 4\<rparr>"
       and stc = "\<lparr>consecutiveAvailable = 0, consecutiveBlocked = 0, previousCapacity = None\<rparr>"
       and ws = "[]" and a = "View_ok 5"]
    streak_counters_follow_the_run
    [where e = 30101 and i = 5 and vs = "[]" and u = View_fails
       and st = "\<lparr>consecutiveAvailable = 0, consecutiveBlocked = 0\<rparr>"
       and stc = "\<lparr>consecutiveAvailable = 0, consecutiveBlocked = 0, previousCapacity = None\<rparr>"
       and ws = "[View_fails, View_ok 0]" and a = "View_ok 5"]
  by (simp add: Number_u64_exact Number_u64_0 del: monitor_passes.simps monitor_passes_cut.simps)


text \<open>
  Claim C10. After any number of passes of the monitor loop both streak counters are
  non-negative and at least one of them is 0, in both variants of the loop.
\<close>

theorem one_streak_counter_is_zero:
  "0 \<le> consecutiveAvailable (snd (monitorRateLimit e i vs)) \<and>
   0 \<le> consecutiveBlocked (snd (monitorRateLimit e i vs)) \<and>
   min (consecutiveAvailable (snd (monitorRateLimit e i vs)))
       (consecutiveBlocked (snd (monitorRateLimit e i vs))) = 0 \<and>
   0 \<le> consecutiveAvailable (snd (monitorRateLimit_cut e i vs)) \<and>
   0 \<le> consecutiveBlocked (snd (monitorRateLimit_cut e i vs)) \<and>
   min (consecutiveAvailable (snd (monitorRateLimit_cut e i vs)))
       (consecutiveBlocked (snd (monitorRateLimit_cut e i vs))) = 0"
  using streak_inv_pass[of "\<lparr>consecutiveAvailable = 0, consecutiveBlocked = 0\<rparr>" e i vs]
    streak_inv_pass_cut[of "\<lparr>consecutiveAvailable = 0, consecutiveBlocked = 0,
      previousCapacity = None\<rparr>" e i vs]
  by (simp add: monitorRateLimit_def monitorRateLimit_cut_def)

theorem one_streak_counter_is_zero_witness:
  "min (consecutiveAvailable (snd (monitorRateLimit 30101 5 [View_ok 5, View_fails, View_ok 7])))
       (consecutiveBlocked (snd (monitorRateLimit 30101 5 [View_ok 5, View_fails, View_ok 7]))) = 0"
  using one_streak_counter_is_zero[of 30101 5 "[View_ok 5, View_fails, View_ok 7]"]
  by simp

section \<open>Sweeping the token balance\<close>

text \<open>
  Claim C9. The transfer script polls the token balance in a loop. In a pass whose
  balance reading is at least the minimum of 300 tokens (\<open>300 * 10^8\<close> units) it starts a
  transfer: it asks for the fee data and, when the provider answers the fee and gas
  queries, sends \<^verbatim>\<open>transfer(UPBIT_ADDRESS, balance)\<close> for the whole balance. In a pass
  whose reading is below the minimum it only waits for the next pass.
\<close>

theorem transfer_when_minimum_reached:
  "(balance_reply inp = Some b \<and> MIN_BALANCE \<le> b \<longrightarrow>
      take 2 (transfer_pass U inp) = [Erc20_balanceOf, Get_fee_data] \<and>
      (\<forall>fd g. fee_reply inp = Some fd \<and> gas_reply inp = Some g \<longrightarrow>
         filter is_transfer_step (take 4 (transfer_pass U inp))
           = [Get_fee_data, Estimate_gas U b,
              Erc20_transfer U b (big_or (maxPriorityFeePerGas fd) (gwei 2))
                (big_or (maxFeePerGas fd) (gwei 30) + big_or (maxPriorityFeePerGas fd) (gwei 2))
                (g * 120 div 100)])) \<and>
   (balance_reply inp = Some b \<and> b < MIN_BALANCE \<longrightarrow>
      transfer_pass U inp = [Erc20_balanceOf, Sleep 3000]) \<and>
   MIN_BALANCE = 300 * 10 ^ 8 \<and>
   transfer_passes U (inp # inps) = transfer_pass U inp @ transfer_passes U inps \<and>
   (\<not> falsy (ETH_PVK env) \<and> \<not> falsy (ETH_RPC env) \<and> UPBIT_ADDRESS env = Some U \<and> U \<noteq> [] \<and>
    wallet_accepted env \<longrightarrow>
      main_transfer env inps = (transfer_passes U inps, Continue ()))"
proof -
  have a: "take 2 (transfer_pass U inp) = [Erc20_balanceOf, Get_fee_data]"
    if "balance_reply inp = Some b" "MIN_BALANCE \<le> b"
    using that by (simp add: transfer_pass_def Let_def split: option.splits)
  have b: "filter is_transfer_step (take 4 (transfer_pass U inp))
           = [Get_fee_data, Estimate_gas U b,
              Erc20_transfer U b (big_or (maxPriorityFeePerGas fd) (gwei 2))
                (big_or (maxFeePerGas fd) (gwei 30) + big_or (maxPriorityFeePerGas fd) (gwei 2))
                (g * 120 div 100)]"
    if "balance_reply inp = Some b" "MIN_BALANCE \<le> b" "fee_reply inp = Some fd"
      "gas_reply inp = Some g" for fd g
    using that by (simp add: transfer_pass_def Let_def)
  have c: "transfer_pass U inp = [Erc20_balanceOf, Sleep 3000]"
    if "balance_reply inp = Some b" "b < MIN_BALANCE"
    using that by (simp add: transfer_pass_def CHECK_INTERVAL_def)
  have d: "main_transfer env inps = (transfer_passes U inps, Continue ())"
    if "\<not> falsy (ETH_PVK env)" "\<not> falsy (ETH_RPC env)" "UPBIT_ADDRESS env = Some U" "U \<noteq> []"
      "wallet_accepted env"
    using that by (simp add: main_transfer_def falsy_def)
  show ?thesis using a b c d MIN_BALANCE_value by auto
qed

theorem transfer_when_minimum_reached_witness:
  "MIN_BALANCE \<le> 30000000000 \<and>
   transfer_pass ''0xdeposit''
     \<lparr>balance_reply = Some 30000000000,
      fee_reply = Some \<lparr>maxPriorityFeePerGas = None, maxFeePerGas = Some 7\<rparr>,
      gas_reply = Some 50001, send_accepted = True, receipt_arrives = True\<rparr>
   = [Erc20_balanceOf, Get_fee_data, Estimate_gas ''0xdeposit'' 30000000000,
      Erc20_transfer ''0xdeposit'' 30000000000 2000000000 2000000007 60001,
      Receipt_wait, Sleep 3000] \<and>
   29999999999 < MIN_BALANCE \<and>
   transfer_pass ''0xdeposit''
     \<lparr>balance_reply = Some 29999999999,
      fee_reply = Some \<lparr>maxPriorityFeePerGas = None, maxFeePerGas = Some 7\<rparr>,
      gas_reply = Some 50001, send_accepted = True, receipt_arrives = True\<rparr>
   = [Erc20_balanceOf, Sleep 3000] \<and>
   main_transfer
     \<lparr>ETH_PVK = Some ''0x01'', ETH_RPC = Some ''http://node'',
      UPBIT_ADDRESS = Some ''0xdeposit'', wallet_accepted = True\<rparr> []
   = ([], Continue ())"
  using transfer_when_minimum_reached
    [where inp = "\<lparr>balance_reply = Some 30000000000,
                    fee_reply = Some \<lparr>maxPriorityFeePerGas = None, maxFeePerGas = Some 7\<rparr>,
                    gas_reply = Some 50001, send_accepted = True, receipt_arrives = True\<rparr>"
       and b = 30000000000 and U = "''0xdeposit''" and inps = "[]"
       and env = "\<lparr>ETH_PVK = Some ''0x01'', ETH_RPC = Some ''http://node'',
                    UPBIT_ADDRESS = Some ''0xdeposit'', wallet_accepted = True\<rparr>"]
    transfer_when_minimum_reached
    [where inp = "\<lparr>balance_reply = Some 29999999999,
                    fee_reply = Some \<lparr>maxPriorityFeePerGas = None, maxFeePerGas = Some 7\<rparr>,
                    gas_reply = Some 50001, send_accepted = True, receipt_arrives = True\<rparr>"
       and b = 29999999999 and U = "''0xdeposit''" and inps = "[]"
       and env = "\<lparr>ETH_PVK = Some ''0x01'', ETH_RPC = Some ''http://node'',
                    UPBIT_ADDRESS = Some ''0xdeposit'', wallet_accepted = True\<rparr>"]
  by (simp add: falsy_def transfer_pass_def Let_def big_or_def gwei_def CHECK_INTERVAL_def
      MIN_BALANCE_value)


end
